(* ===== verification/Prelude.thy ===== *)
theory Prelude
  imports Main
begin

text \<open>
  Shared vocabulary of the BizConnect model: the JavaScript values the pages
  exchange (numbers that may be \<open>NaN\<close>, strings that are tested for
  truthiness, \<open>undefined\<close> as \<open>None\<close>), the runtime error a page can raise
  while rendering, the authenticated user, and the generic list lemmas the
  component theories share.  The \<open>named_theorems\<close> collections gather the
  evaluation rules of the JavaScript builtins and the equations of the
  handlers, so that component proofs are \<open>simp add: js_simps\<close>.
\<close>

named_theorems js_simps "evaluation rules of the JavaScript builtins used by the pages"
named_theorems page_simps "equations of the page handlers and views"

section \<open>JavaScript values\<close>

text \<open>
  A JavaScript number produced by \<open>parseInt\<close>: \<open>NaN\<close>, an infinity, or a
  finite double, which \<open>parseInt\<close> always makes integral (theory
  \<open>JsNumber\<close> rounds the parsed integer to the nearest double).  \<open>-0\<close> is
  identified with \<open>0\<close> (they serialise to the same JSON text).
\<close>

datatype js_int = NaN | Num int | PosInf | NegInf

primrec js_is_nan :: "js_int \<Rightarrow> bool" where
  "js_is_nan NaN = True"
| "js_is_nan (Num _) = False"
| "js_is_nan PosInf = False"
| "js_is_nan NegInf = False"

text \<open>
  Truthiness of a string in JavaScript: only the empty string is falsy.  The
  pages use it in \<open>s || undefined\<close> and \<open>s || d\<close>.
\<close>

definition js_truthy_str :: "string \<Rightarrow> bool" where
  "js_truthy_str s \<longleftrightarrow> s \<noteq> []"

definition or_undefined :: "string \<Rightarrow> string option" where
  "or_undefined s = (if js_truthy_str s then Some s else None)"

definition or_default :: "string \<Rightarrow> string \<Rightarrow> string" where
  "or_default s d = (if js_truthy_str s then s else d)"

text \<open>
  A \<open>TypeError\<close> is what the runtime throws when a property of \<open>null\<close> or
  \<open>undefined\<close> is read; a React component that throws while rendering renders
  nothing and unmounts.
\<close>

datatype js_error = TypeError string

type_synonym 'a js_result = "js_error + 'a"

section \<open>The authenticated user\<close>

text \<open>
  \<open>useAuth()\<close> yields the Supabase user or \<open>null\<close>; the pages read its
  \<open>id\<close> and \<open>email\<close>.
\<close>

record auth_user =
  user_id :: string
  email :: string

type_synonym session = "auth_user option"

text \<open>
  Routes are the path strings passed to \<open>navigate\<close> and \<open>Link to\<close>.
\<close>

type_synonym route = string

section \<open>Keyed collections\<close>

text \<open>
  Collections are lists of records with an \<open>id\<close> field; the views key their
  cards by it and the delete handlers remove by it.
\<close>

definition without_id :: "('a \<Rightarrow> 'k) \<Rightarrow> 'k \<Rightarrow> 'a list \<Rightarrow> 'a list" where
  "without_id key k xs = filter (\<lambda>x. key x \<noteq> k) xs"

section \<open>Lemmas on JavaScript values\<close>

lemma or_undefined_eq [simp, js_simps]:
  "or_undefined [] = None" "or_undefined (c # cs) = Some (c # cs)"
  by (simp_all add: or_undefined_def js_truthy_str_def)

lemma or_default_eq [simp, js_simps]:
  "or_default [] d = d" "or_default (c # cs) d = c # cs"
  by (simp_all add: or_default_def js_truthy_str_def)

section \<open>Lemmas on keyed collections\<close>

lemma without_id_not_member [simp]:
  "k \<notin> key ` set (without_id key k xs)"
  by (auto simp: without_id_def)

lemma without_id_subset:
  "set (without_id key k xs) \<subseteq> set xs"
  by (auto simp: without_id_def)

lemma without_id_absent [simp]:
  "k \<notin> key ` set xs \<Longrightarrow> without_id key k xs = xs"
  by (induction xs) (auto simp: without_id_def)

lemma distinct_without_id:
  "distinct (map key xs) \<Longrightarrow> distinct (map key (without_id key k xs))"
  by (induction xs) (auto simp: without_id_def)

lemma without_id_idem [simp]:
  "without_id key k (without_id key k xs) = without_id key k xs"
  by (simp add: without_id_def)

end
