(* ===== verification/JsNumber.thy ===== *)
theory JsNumber
  imports Prelude "HOL-Library.Log_Nat"
begin

text \<open>
  JavaScript numbers are IEEE 754 binary64 doubles.  \<open>to_double q\<close> is the
  double nearest to the rational \<open>q\<close>, ties to the even significand (the
  operation ECMA-262 writes \<open>\<bbbF>(x)\<close> and uses for \<open>parseInt\<close> and for the
  result of \<open>/\<close>); \<open>None\<close> when that rounding overflows to an infinity.  The
  spacing of the doubles near \<open>q\<close> is \<open>2 ^ double_exp |q|\<close>: 53 significant
  bits for normal numbers, the fixed spacing \<open>2 ^ -1074\<close> for subnormal ones.
  Everything is executable: \<open>floor_log2\<close> reads the exponent off the bit
  lengths (\<open>bitlen\<close> of HOL-Library) of numerator and denominator.
\<close>

section \<open>Rounding to a double\<close>

definition floor_log2 :: "rat \<Rightarrow> int" where
  "floor_log2 q =
     (let (n, d) = quotient_of q; k = bitlen n - bitlen d
      in if power_int 2 k \<le> q then k else k - 1)"

definition round_half_even :: "rat \<Rightarrow> int" where
  "round_half_even x =
     (let f = \<lfloor>x\<rfloor>; r = x - of_int f
      in if r < 1 / 2 then f else if 1 / 2 < r then f + 1 else if even f then f else f + 1)"

definition double_exp :: "rat \<Rightarrow> int" where
  "double_exp a = max (floor_log2 a - 52) (-1074)"

definition to_double :: "rat \<Rightarrow> rat option" where
  "to_double q =
     (if q = 0 then Some 0
      else let a = \<bar>q\<bar>; g = power_int 2 (double_exp a); r = of_int (round_half_even (a / g)) * g
           in if 2 ^ 1024 \<le> r then None else Some (sgn q * r))"

text \<open>\<open>\<bbbF>\<close> of an integer: a finite integral double or an infinity.\<close>

definition double_of_int :: "int \<Rightarrow> js_int" where
  "double_of_int v =
     (case to_double (of_int v) of
        None \<Rightarrow> if v < 0 then NegInf else PosInf
      | Some r \<Rightarrow> Num \<lfloor>r\<rfloor>)"

text \<open>Rounding to an integer, half away from zero (\<open>Intl\<close>'s \<open>halfExpand\<close>).\<close>

definition round_half_expand :: "rat \<Rightarrow> int" where
  "round_half_expand x = (if 0 \<le> x then \<lfloor>x + 1 / 2\<rfloor> else - \<lfloor>- x + 1 / 2\<rfloor>)"

section \<open>Properties\<close>

lemma round_half_even_err: "\<bar>x - of_int (round_half_even x)\<bar> \<le> 1 / 2"
proof -
  have "of_int \<lfloor>x\<rfloor> \<le> x" "x < of_int \<lfloor>x\<rfloor> + 1" by linarith+
  then show ?thesis by (auto simp: round_half_even_def Let_def)
qed

lemma round_half_even_of_int [simp]: "round_half_even (of_int m) = m"
  by (simp add: round_half_even_def)

lemma round_half_expand_near:
  assumes "\<bar>x - of_int m\<bar> < 1 / 2"
  shows "round_half_expand x = m"
proof -
  from assms have lo: "of_int m - 1 / 2 < x" and hi: "x < of_int m + 1 / 2" by linarith+
  show ?thesis
  proof (cases "0 \<le> x")
    case True
    have "\<lfloor>x + 1 / 2\<rfloor> = m" by (rule floor_unique) (use lo hi in linarith)+
    with True show ?thesis by (simp add: round_half_expand_def)
  next
    case False
    have "\<lfloor>- x + 1 / 2\<rfloor> = - m" by (rule floor_unique) (use lo hi in linarith)+
    with False show ?thesis by (simp add: round_half_expand_def)
  qed
qed

lemma bitlen_pos_bounds:
  assumes n: "0 < n"
  shows "power_int (2::rat) (bitlen n - 1) \<le> of_int n \<and> (of_int n :: rat) < power_int 2 (bitlen n)"
proof -
  have b: "1 \<le> bitlen n" using n by (auto simp: bitlen_alt_def)
  from bitlen_bounds [OF n] have l: "2 ^ nat (bitlen n - 1) \<le> n" and u: "n < 2 ^ nat (bitlen n)" by auto
  from l have "(of_int (2 ^ nat (bitlen n - 1)) :: rat) \<le> of_int n" by (simp only: of_int_le_iff)
  moreover from u have "(of_int n :: rat) < of_int (2 ^ nat (bitlen n))" by (simp only: of_int_less_iff)
  ultimately show ?thesis using b by (simp add: power_int_def)
qed

lemma floor_log2_le:
  assumes "0 < q"
  shows "power_int 2 (floor_log2 q) \<le> q"
proof -
  obtain n d where nd: "quotient_of q = (n, d)" by fastforce
  then have q: "q = of_int n / of_int d" and d: "0 < d" using quotient_of_div quotient_of_denom_pos by blast+
  with assms have n: "0 < n" by (simp add: zero_less_divide_iff)
  let ?k = "bitlen n - bitlen d"
  have "power_int 2 (?k - 1) = power_int (2::rat) (bitlen n - 1) / power_int 2 (bitlen d)"
    by (simp add: power_int_diff [symmetric] algebra_simps)
  also have "\<dots> \<le> of_int n / power_int 2 (bitlen d)"
    using bitlen_pos_bounds [OF n] by (intro divide_right_mono) auto
  also have "\<dots> \<le> of_int n / of_int d"
    using bitlen_pos_bounds [OF d] n d by (intro divide_left_mono) auto
  finally have "power_int 2 (?k - 1) \<le> q" using q by simp
  then show ?thesis using nd by (simp add: floor_log2_def Let_def)
qed

lemma floor_log2_less:
  assumes "0 < q" and "q < power_int 2 j"
  shows "floor_log2 q < j"
proof (rule ccontr)
  assume "\<not> floor_log2 q < j"
  then have "power_int (2::rat) j \<le> power_int 2 (floor_log2 q)" by (intro power_int_increasing) auto
  with floor_log2_le [OF assms(1)] assms(2) show False by simp
qed

lemma double_exp_le:
  assumes "0 < a" and "a < power_int 2 j"
  shows "double_exp a \<le> max (j - 53) (-1074)"
  using floor_log2_less [OF assms] by (simp add: double_exp_def)

lemma grid_err:
  assumes g: "0 < g"
  shows "\<bar>of_int (round_half_even (a / g)) * g - a\<bar> \<le> g / 2"
proof -
  let ?m = "round_half_even (a / g)"
  have "of_int ?m * g - a = g * (of_int ?m - a / g)" using g by (simp add: field_simps)
  then have "\<bar>of_int ?m * g - a\<bar> = g * \<bar>a / g - of_int ?m\<bar>" using g by (simp add: abs_mult abs_minus_commute)
  also have "\<dots> \<le> g * (1 / 2)" using round_half_even_err [of "a / g"] g by (intro mult_left_mono) auto
  finally show ?thesis by simp
qed

lemma to_double_err:
  assumes "to_double q = Some r" and "q \<noteq> 0"
  shows "\<bar>r - q\<bar> \<le> power_int 2 (double_exp \<bar>q\<bar>) / 2"
proof -
  let ?g = "power_int (2::rat) (double_exp \<bar>q\<bar>)"
  let ?r0 = "of_int (round_half_even (\<bar>q\<bar> / ?g)) * ?g"
  from assms have r: "r = sgn q * ?r0" by (simp add: to_double_def Let_def split: if_splits)
  have "\<bar>r - q\<bar> = \<bar>?r0 - \<bar>q\<bar>\<bar>"
    using assms(2) r by (cases "0 < q") (auto simp: abs_minus_commute algebra_simps)
  with grid_err [of ?g "\<bar>q\<bar>"] show ?thesis by simp
qed

lemma double_exp_grid: "0 < a \<Longrightarrow> power_int 2 (double_exp a) \<le> max a 1"
proof -
  assume a: "0 < a"
  show ?thesis
  proof (cases "floor_log2 a - 52 \<le> -1074")
    case True
    then have "power_int (2::rat) (double_exp a) \<le> power_int 2 0"
      by (intro power_int_increasing) (auto simp: double_exp_def)
    then show ?thesis by simp
  next
    case False
    then have "power_int (2::rat) (double_exp a) \<le> power_int 2 (floor_log2 a)"
      by (intro power_int_increasing) (auto simp: double_exp_def)
    with floor_log2_le [OF a] show ?thesis by simp
  qed
qed

lemma below_double_max:
  fixes x a g B :: rat
  assumes "0 < g" "g \<le> max a 1" "0 \<le> a" "a < B" "1 \<le> B" "x - a \<le> g / 2"
  shows "x < 2 * B"
  using assms by (auto simp: max_def split: if_splits)

lemma to_double_finite:
  assumes "\<bar>q\<bar> < 2 ^ 1023"
  shows "\<exists>r. to_double q = Some r"
proof (cases "q = 0")
  case False
  let ?g = "power_int (2::rat) (double_exp \<bar>q\<bar>)"
  let ?r0 = "of_int (round_half_even (\<bar>q\<bar> / ?g)) * ?g"
  have g: "0 < ?g" by simp
  have "?r0 - \<bar>q\<bar> \<le> ?g / 2" by (rule abs_le_D1 [OF grid_err [OF g]])
  moreover have "?g \<le> max \<bar>q\<bar> 1" using double_exp_grid [of "\<bar>q\<bar>"] False by simp
  ultimately have "?r0 < 2 * 2 ^ 1023"
    using assms by (intro below_double_max [of ?g "\<bar>q\<bar>"]) simp_all
  then have "\<not> 2 ^ 1024 \<le> ?r0" by simp
  then show ?thesis using False by (simp add: to_double_def Let_def)
qed (simp add: to_double_def)

lemma to_double_on_grid:
  assumes "q \<noteq> 0" and z: "\<bar>q\<bar> = of_int z * power_int 2 (double_exp \<bar>q\<bar>)" and "\<bar>q\<bar> < 2 ^ 1024"
  shows "to_double q = Some q"
proof -
  define g where "g = power_int (2::rat) (double_exp \<bar>q\<bar>)"
  have g0: "g \<noteq> 0" by (simp add: g_def)
  have zg: "\<bar>q\<bar> = of_int z * g" using z by (simp add: g_def)
  have "\<bar>q\<bar> / g = of_int z" using zg g0 by simp
  then have "of_int (round_half_even (\<bar>q\<bar> / g)) * g = \<bar>q\<bar>" using zg by simp
  with assms(1,3) show ?thesis by (simp add: to_double_def Let_def sgn_mult_abs g_def [symmetric])
qed

lemma to_double_int_exact:
  assumes "\<bar>v\<bar> < 2 ^ 53"
  shows "to_double (of_int v) = Some (of_int v)"
proof (cases "v = 0")
  case False
  let ?a = "\<bar>of_int v :: rat\<bar>"
  have a: "0 < ?a" using False by simp
  have "?a < power_int 2 53" using assms by (simp add: power_int_def)
  from double_exp_le [OF a this] have e: "double_exp ?a \<le> 0" by simp
  obtain k where ek: "double_exp ?a = - int k"
    using e by (intro that [of "nat (- double_exp ?a)"]) simp
  have g: "power_int (2::rat) (double_exp ?a) = 1 / 2 ^ k"
    unfolding ek by (simp only: power_int_minus_divide power_int_of_nat)
  have z: "?a = of_int (\<bar>v\<bar> * 2 ^ k) * power_int 2 (double_exp ?a)" using g by simp
  have lt: "?a < 2 ^ 1024"
  proof -
    have "?a < 2 ^ 53" using assms by simp
    also have "(2::rat) ^ 53 \<le> 2 ^ 1024" by (rule power_increasing) simp_all
    finally show ?thesis .
  qed
  have v0: "(of_int v :: rat) \<noteq> 0" using False by simp
  from to_double_on_grid [OF v0 z lt] show ?thesis .
qed (simp add: to_double_def)

lemma double_of_int_exact: "\<bar>v\<bar> < 2 ^ 53 \<Longrightarrow> double_of_int v = Num v"
  by (simp add: double_of_int_def to_double_int_exact)

end
