(* ===== verification/JsParseInt.thy ===== *)
theory JsParseInt
  imports JsNumber
begin

text \<open>
  The ECMAScript builtin \<open>parseInt(string)\<close> with no radix argument, which
  \<open>CreateInvoice.handleSubmit\<close> applies to the raw text of the month and
  sales-amount fields (ECMA-262, Number.parseInt): skip leading white space,
  read an optional sign, strip a \<open>0x\<close>/\<open>0X\<close> prefix (which switches to radix
  16), take the longest run of radix digits, return \<open>NaN\<close> when the run is
  empty, and otherwise the parsed integer as a Number, i.e. rounded to the
  nearest double (\<open>double_of_int\<close>, theory \<open>JsNumber\<close>; V8 rounds
  correctly, which ECMA-262 permits).  Characters are the Latin-1 code units
  \<open>char\<close> can hold; the white space characters of ECMA-262 in that range are
  tab, LF, VT, FF, CR, space and no-break space.  The decimal rendering
  \<open>int_string\<close> of an integer is the text a number input holds when the user
  types that integer; the round trip \<open>parseInt (int_string i) =
  double_of_int i\<close>, which is \<open>Num i\<close> below \<open>2^53\<close>, is proved below,
  together with what \<open>parseInt\<close> makes of the exponent and fraction forms
  that a number input also accepts.
\<close>

section \<open>The builtin\<close>

definition js_whitespace :: "char \<Rightarrow> bool" where
  "js_whitespace c \<longleftrightarrow> (of_char c :: nat) \<in> set [9, 10, 11, 12, 13, 32, 160]"

text \<open>Digit values of \<open>0-9\<close>, \<open>a-z\<close>, \<open>A-Z\<close> as in ECMA-262's radix digits.\<close>

definition digit_value :: "char \<Rightarrow> nat option" where
  "digit_value c =
     (let n = (of_char c :: nat) in
      if 48 \<le> n \<and> n \<le> 57 then Some (n - 48)
      else if 97 \<le> n \<and> n \<le> 122 then Some (n - 87)
      else if 65 \<le> n \<and> n \<le> 90 then Some (n - 55)
      else None)"

definition radix_digit :: "nat \<Rightarrow> char \<Rightarrow> nat option" where
  "radix_digit r c =
     (case digit_value c of None \<Rightarrow> None | Some d \<Rightarrow> if d < r then Some d else None)"

fun digit_run :: "nat \<Rightarrow> string \<Rightarrow> nat list" where
  "digit_run r [] = []"
| "digit_run r (c # cs) =
     (case radix_digit r c of None \<Rightarrow> [] | Some d \<Rightarrow> d # digit_run r cs)"

definition digits_value :: "nat \<Rightarrow> nat list \<Rightarrow> nat" where
  "digits_value r ds = foldl (\<lambda>acc d. acc * r + d) 0 ds"

definition strip_sign :: "string \<Rightarrow> int \<times> string" where
  "strip_sign S =
     (case S of
        [] \<Rightarrow> (1, [])
      | c # rest \<Rightarrow>
          if c = CHR ''-'' then (-1, rest)
          else if c = CHR ''+'' then (1, rest)
          else (1, S))"

definition strip_prefix :: "string \<Rightarrow> nat \<times> string" where
  "strip_prefix S =
     (case S of
        c0 # c1 # rest \<Rightarrow>
          if c0 = CHR ''0'' \<and> (c1 = CHR ''x'' \<or> c1 = CHR ''X'') then (16, rest) else (10, S)
      | _ \<Rightarrow> (10, S))"

definition parseInt :: "string \<Rightarrow> js_int" where
  "parseInt input =
     (let S = dropWhile js_whitespace input;
          (sign, S) = strip_sign S;
          (R, S) = strip_prefix S;
          Z = digit_run R S
      in if Z = [] then NaN else double_of_int (sign * int (digits_value R Z)))"

section \<open>Decimal rendering of integers\<close>

text \<open>
  \<open>int_string\<close> is the text of an integer as a number input holds it;
  \<open>stops_number rest\<close> says that \<open>rest\<close> cannot continue the digit run or
  turn a leading \<open>0\<close> into a hexadecimal prefix.
\<close>

fun nat_digits :: "nat \<Rightarrow> nat list" where
  "nat_digits n = (if n < 10 then [n] else nat_digits (n div 10) @ [n mod 10])"

declare nat_digits.simps [simp del]

definition digit_char :: "nat \<Rightarrow> char" where
  "digit_char d = char_of (48 + d)"

definition nat_string :: "nat \<Rightarrow> string" where
  "nat_string n = map digit_char (nat_digits n)"

definition int_string :: "int \<Rightarrow> string" where
  "int_string i =
     (if i < 0 then CHR ''-'' # nat_string (nat (- i)) else nat_string (nat i))"

definition stops_number :: "string \<Rightarrow> bool" where
  "stops_number rest \<longleftrightarrow>
     (case rest of
        [] \<Rightarrow> True
      | c # _ \<Rightarrow> radix_digit 10 c = None \<and> c \<noteq> CHR ''x'' \<and> c \<noteq> CHR ''X'')"

section \<open>Properties\<close>

subsection \<open>Digits\<close>

lemma of_char_digit_char [simp]: "d < 10 \<Longrightarrow> (of_char (digit_char d) :: nat) = 48 + d"
  by (simp add: digit_char_def)

lemma radix_digit_digit_char [simp]: "d < 10 \<Longrightarrow> radix_digit 10 (digit_char d) = Some d"
  by (simp add: radix_digit_def digit_value_def)

lemma digit_char_not_space [simp]: "d < 10 \<Longrightarrow> \<not> js_whitespace (digit_char d)"
  by (auto simp: js_whitespace_def)

lemma digit_char_neq:
  assumes "d < 10" and "\<not> (48 \<le> (of_char c :: nat) \<and> (of_char c :: nat) \<le> 57)"
  shows "digit_char d \<noteq> c"
proof
  assume "digit_char d = c"
  then have "(of_char c :: nat) = 48 + d" using assms(1) of_char_digit_char by metis
  with assms show False by simp
qed

lemma digit_char_not_x [simp]:
  "d < 10 \<Longrightarrow> digit_char d \<noteq> CHR ''x''" "d < 10 \<Longrightarrow> digit_char d \<noteq> CHR ''X''"
  "d < 10 \<Longrightarrow> digit_char d \<noteq> CHR ''-''" "d < 10 \<Longrightarrow> digit_char d \<noteq> CHR ''+''"
  "d < 10 \<Longrightarrow> digit_char d \<noteq> CHR ''.''" "d < 10 \<Longrightarrow> digit_char d \<noteq> CHR '',''"
  "d < 10 \<Longrightarrow> digit_char d \<noteq> CHR ''$''"
  by (rule digit_char_neq; simp)+

lemma nat_digits_lt: "d \<in> set (nat_digits n) \<Longrightarrow> d < 10"
proof (induction n rule: nat_digits.induct)
  case (1 n)
  then show ?case by (subst (asm) nat_digits.simps) (auto split: if_splits)
qed

lemma nat_digits_ne [simp]: "nat_digits n \<noteq> []"
  by (subst nat_digits.simps) simp

lemma digits_value_snoc [simp]: "digits_value r (ds @ [d]) = digits_value r ds * r + d"
  by (simp add: digits_value_def)

lemma digits_value_nat_digits [simp]: "digits_value 10 (nat_digits n) = n"
proof (induction n rule: nat_digits.induct)
  case (1 n)
  then show ?case by (subst nat_digits.simps) (simp add: digits_value_def)
qed

lemma digit_run_digits:
  "\<forall>d \<in> set ds. d < 10 \<Longrightarrow> digit_run 10 (map digit_char ds @ rest) = ds @ digit_run 10 rest"
  by (induction ds) auto

subsection \<open>Parsing the decimal rendering\<close>

text \<open>Evaluation of \<open>int_string\<close> on numerals, for concrete inputs.\<close>

lemmas int_string_eval = int_string_def nat_string_def nat_digits.simps digit_char_def char_of_eq_iff

lemma nat_string_cons: "\<exists>d ds. nat_string n = digit_char d # map digit_char ds \<and> d < 10 \<and> (\<forall>e \<in> set ds. e < 10)"
proof -
  obtain d ds where "nat_digits n = d # ds" using nat_digits_ne by (metis list.exhaust)
  moreover have "\<forall>e \<in> set (nat_digits n). e < 10" using nat_digits_lt by blast
  ultimately show ?thesis by (auto simp: nat_string_def)
qed

lemma digit_run_stops [simp]: "stops_number rest \<Longrightarrow> digit_run 10 rest = []"
  by (cases rest) (auto simp: stops_number_def)

lemma digit_run_nat_string:
  "stops_number rest \<Longrightarrow> digit_run 10 (nat_string n @ rest) = nat_digits n"
  using digit_run_digits [of "nat_digits n" rest] nat_digits_lt
  by (simp add: nat_string_def)

lemma strip_prefix_nat_string:
  assumes "stops_number rest"
  shows "strip_prefix (nat_string n @ rest) = (10, nat_string n @ rest)"
proof -
  obtain d ds where n: "nat_string n = digit_char d # map digit_char ds"
    and d: "d < 10" and ds: "\<forall>e \<in> set ds. e < 10"
    using nat_string_cons by blast
  show ?thesis
  proof (cases ds)
    case Nil
    with n d assms show ?thesis
      by (cases rest) (auto simp: strip_prefix_def stops_number_def)
  next
    case (Cons e es)
    with n ds show ?thesis by (simp add: strip_prefix_def)
  qed
qed

lemma nat_string_head:
  "dropWhile js_whitespace (nat_string n @ rest) = nat_string n @ rest \<and>
   strip_sign (nat_string n @ rest) = (1, nat_string n @ rest)"
proof -
  obtain d ds where "nat_string n = digit_char d # map digit_char ds" and "d < 10"
    using nat_string_cons by blast
  then show ?thesis by (simp add: strip_sign_def)
qed

lemma parseInt_nat_string:
  "stops_number rest \<Longrightarrow> parseInt (nat_string n @ rest) = double_of_int (int n)"
  using nat_string_head [of n rest]
  by (simp add: parseInt_def strip_prefix_nat_string digit_run_nat_string)

lemma parseInt_int_string_prefix:
  assumes "stops_number rest"
  shows "parseInt (int_string i @ rest) = double_of_int i"
proof (cases "i < 0")
  case True
  have "\<not> js_whitespace CHR ''-''" by (simp add: js_whitespace_def)
  with True assms nat_string_head [of "nat (- i)" rest] show ?thesis
    by (simp add: int_string_def parseInt_def strip_sign_def strip_prefix_nat_string
        digit_run_nat_string)
next
  case False
  with parseInt_nat_string [OF assms, of "nat i"] show ?thesis
    by (simp add: int_string_def)
qed

lemma parseInt_roundtrip: "parseInt (int_string i) = double_of_int i"
  using parseInt_int_string_prefix [of "[]" i] by (simp add: stops_number_def)

text \<open>The text after a decimal point or an exponent marker is ignored.\<close>

lemma parseInt_stops_at_exponent:
  assumes "c \<in> {CHR ''.'', CHR ''e'', CHR ''E''}"
  shows "parseInt (int_string m @ c # rest) = double_of_int m"
proof (rule parseInt_int_string_prefix)
  show "stops_number (c # rest)"
    using assms by (auto simp: stops_number_def radix_digit_def digit_value_def)
qed

subsection \<open>Range\<close>


lemma digit_run_lt: "d \<in> set (digit_run r s) \<Longrightarrow> d < r"
  by (induction r s rule: digit_run.induct) (auto simp: radix_digit_def split: option.splits if_splits)

lemma length_digit_run: "length (digit_run r s) \<le> length s"
  by (induction r s rule: digit_run.induct) (auto split: option.splits)

lemma foldl_digits_bound:
  "\<forall>d \<in> set ds. d < r \<Longrightarrow> foldl (\<lambda>acc d. acc * r + d) acc ds < Suc acc * r ^ length ds"
proof (induction ds arbitrary: acc)
  case Nil
  then show ?case by simp
next
  case (Cons d ds)
  then have "foldl (\<lambda>acc d. acc * r + d) (acc * r + d) ds < Suc (acc * r + d) * r ^ length ds"
    by simp
  also have "\<dots> \<le> Suc acc * r * r ^ length ds"
  proof (rule mult_le_mono1)
    show "Suc (acc * r + d) \<le> Suc acc * r" using Cons.prems by simp
  qed
  finally show ?case by (simp add: algebra_simps)
qed

lemma digits_value_bound:
  "\<forall>d \<in> set ds. d < r \<Longrightarrow> digits_value r ds < r ^ length ds"
  using foldl_digits_bound [of ds r 0] by (simp add: digits_value_def)

lemma strip_sign_cases:
  "strip_sign S = (sg, S') \<Longrightarrow> (sg = 1 \<or> sg = -1) \<and> length S' \<le> length S"
  by (auto simp: strip_sign_def split: list.splits if_splits)

lemma strip_prefix_cases:
  "strip_prefix S = (R, S') \<Longrightarrow> (R = 10 \<and> S' = S) \<or> (R = 16 \<and> length S' + 2 = length S)"
  by (auto simp: strip_prefix_def split: list.splits if_splits)

text \<open>
  A text of at most 15 characters parses to a magnitude below \<open>2^53\<close>,
  which a double holds exactly, so \<open>parseInt\<close> returns the parsed integer.
\<close>

lemma parseInt_exact_range:
  assumes "parseInt s = Num v" and "length s \<le> 15"
  shows "\<bar>v\<bar> < 2 ^ 53"
proof -
  obtain sg S1 where sg: "strip_sign (dropWhile js_whitespace s) = (sg, S1)" by fastforce
  obtain R S2 where R: "strip_prefix S1 = (R, S2)" by fastforce
  let ?Z = "digit_run R S2"
  have v: "double_of_int (sg * int (digits_value R ?Z)) = Num v" and "?Z \<noteq> []"
    using assms(1) sg R by (simp_all add: parseInt_def Let_def split: if_splits)
  have len1: "length S1 \<le> 15" and sg1: "\<bar>sg\<bar> = 1"
    using strip_sign_cases [OF sg] assms(2) length_dropWhile_le [of js_whitespace s] by auto
  have lt: "digits_value R ?Z < R ^ length ?Z"
    using digit_run_lt by (blast intro: digits_value_bound)
  have "digits_value R ?Z < 2 ^ 53"
  proof (cases "R = 10")
    case True
    with strip_prefix_cases [OF R] len1 length_digit_run [of R S2]
    have "length ?Z \<le> 15" by simp
    then have "(10::nat) ^ length ?Z \<le> 10 ^ 15" by (rule power_increasing) simp
    with lt True show ?thesis by simp
  next
    case False
    with strip_prefix_cases [OF R] len1 length_digit_run [of R S2]
    have "R = 16" and Z13: "length ?Z \<le> 13" by auto
    from Z13 have "(16::nat) ^ length ?Z \<le> 16 ^ 13" by (rule power_increasing) simp
    with lt \<open>R = 16\<close> show ?thesis by simp
  qed
  then have x: "\<bar>sg * int (digits_value R ?Z)\<bar> < 2 ^ 53" using sg1 by (simp add: abs_mult)
  with v double_of_int_exact [OF x] show ?thesis by simp
qed

end
