(* ===== verification/HtmlInput.thy ===== *)
theory HtmlInput
  imports Complex_Main JsParseInt
begin

text \<open>
  The browser's side of \<open><input type="number">\<close>: the HTML Living
  Standard's "valid floating-point number" grammar and the value it denotes.
  A number input whose text is not such a number is invalid (bad input), so
  the form's \<open>submit\<close> event, and with it \<open>handleSubmit\<close>, only ever sees
  texts this grammar accepts.  The grammar: an optional \<open>-\<close>; one or both of
  a digit run and a \<open>.\<close> followed by a digit run; optionally \<open>e\<close> or \<open>E\<close>,
  an optional sign and a digit run.  Values are exact rationals; the browser
  rounds them to the nearest double, which changes nothing for the texts the
  theorems below exhibit.
\<close>

definition is_digit :: "char \<Rightarrow> bool" where
  "is_digit c \<longleftrightarrow> radix_digit 10 c \<noteq> None"

definition digit_list :: "string \<Rightarrow> nat list" where
  "digit_list s = digit_run 10 s"

text \<open>\<open>scale_value m e\<close> is \<open>m \<cdot> 10^e\<close> for an integer exponent \<open>e\<close>.\<close>

definition scale_value :: "int \<Rightarrow> int \<Rightarrow> rat" where
  "scale_value m e =
     (if 0 \<le> e then of_int m * 10 ^ nat e else of_int m / 10 ^ nat (- e))"

definition html_exponent :: "string \<Rightarrow> int option" where
  "html_exponent s =
     (case s of
        [] \<Rightarrow> Some 0
      | c # r \<Rightarrow>
          if c = CHR ''e'' \<or> c = CHR ''E'' then
            (let (sg, r1) = strip_sign r;
                 ed = takeWhile is_digit r1
             in if ed = [] \<or> dropWhile is_digit r1 \<noteq> [] then None
                else Some (sg * int (digits_value 10 (digit_list ed))))
          else None)"

definition html_float :: "string \<Rightarrow> rat option" where
  "html_float s =
     (let (neg, s1) = (case s of c # r \<Rightarrow> if c = CHR ''-'' then (True, r) else (False, s)
                                | [] \<Rightarrow> (False, []));
          ip = takeWhile is_digit s1;
          s2 = dropWhile is_digit s1;
          (dot, s3) = (case s2 of c # r \<Rightarrow> if c = CHR ''.'' then (True, r) else (False, s2)
                                | [] \<Rightarrow> (False, []));
          fp = (if dot then takeWhile is_digit s3 else []);
          s4 = (if dot then dropWhile is_digit s3 else s3);
          m = (if neg then -1 else 1) * int (digits_value 10 (digit_list (ip @ fp)))
      in if (if dot then fp = [] else ip = []) then None
         else (case html_exponent s4 of
                 None \<Rightarrow> None
               | Some e \<Rightarrow> Some (scale_value m (e - int (length fp)))))"

definition is_integral :: "rat \<Rightarrow> bool" where
  "is_integral v \<longleftrightarrow> of_int (floor v) = v"

section \<open>Integer texts\<close>

lemma is_digit_digit_char [simp]: "d < 10 \<Longrightarrow> is_digit (digit_char d)"
  by (simp add: is_digit_def)

lemma nat_string_digits: "\<forall>c \<in> set (nat_string n). is_digit c"
  using nat_digits_lt by (auto simp: nat_string_def)

lemma nat_string_not_empty [simp]: "nat_string n \<noteq> []"
  by (simp add: nat_string_def)

lemma digit_list_nat_string [simp]: "digit_list (nat_string n) = nat_digits n"
  using digit_run_nat_string [of "[]" n] by (simp add: digit_list_def stops_number_def)

lemma span_nat_string [simp]:
  "takeWhile is_digit (nat_string n) = nat_string n"
  "dropWhile is_digit (nat_string n) = []"
  "\<not> is_digit c \<Longrightarrow> takeWhile is_digit (nat_string n @ c # r) = nat_string n"
  "\<not> is_digit c \<Longrightarrow> dropWhile is_digit (nat_string n @ c # r) = c # r"
  using nat_string_digits [of n] by simp_all

lemma nat_string_not_minus: "hd (nat_string n) \<noteq> CHR ''-''"
  using nat_string_cons [of n] by auto

lemma nat_string_sign:
  "(case nat_string n @ rest of c # r \<Rightarrow> if c = CHR ''-'' then (True, r) else (False, nat_string n @ rest)
     | [] \<Rightarrow> (False, [])) = (False, nat_string n @ rest)"
  "(case nat_string n of c # r \<Rightarrow> if c = CHR ''-'' then (True, r) else (False, nat_string n)
     | [] \<Rightarrow> (False, [])) = (False, nat_string n)"
  using nat_string_cons [of n] by auto

lemma no_dot:
  assumes "rest = [] \<or> hd rest \<noteq> CHR ''.''"
  shows "(case rest of c # r \<Rightarrow> if c = CHR ''.'' then (True, r) else (False, rest)
     | [] \<Rightarrow> (False, [])) = (False, rest)"
  using assms by (cases rest) auto

lemma html_float_nat_string_exp:
  assumes "html_exponent rest = Some e" and "rest = [] \<or> \<not> is_digit (hd rest) \<and> hd rest \<noteq> CHR ''.''"
  shows "html_float (nat_string n @ rest) = Some (scale_value (int n) e)"
proof (cases rest)
  case Nil
  with assms(1) show ?thesis by (simp add: html_float_def Let_def nat_string_sign)
next
  case (Cons c r)
  with assms show ?thesis by (simp add: html_float_def Let_def nat_string_sign)
qed


lemma html_float_int_string_exp:
  assumes "html_exponent rest = Some e" and "rest = [] \<or> \<not> is_digit (hd rest) \<and> hd rest \<noteq> CHR ''.''"
  shows "html_float (int_string m @ rest) = Some (scale_value m e)"
proof (cases "m < 0")
  case False
  with html_float_nat_string_exp [OF assms, of "nat m"] show ?thesis
    by (simp add: int_string_def)
next
  case True
  have "html_float (CHR ''-'' # nat_string n @ rest) = Some (scale_value (- int n) e)" for n
  proof (cases rest)
    case Nil
    with assms(1) show ?thesis by (simp add: html_float_def Let_def)
  next
    case (Cons c r)
    with assms show ?thesis by (simp add: html_float_def Let_def)
  qed
  from this [of "nat (- m)"] True show ?thesis by (simp add: int_string_def)
qed

lemma html_exponent_nat_string [simp]:
  "html_exponent (CHR ''e'' # nat_string k) = Some (int k)"
  using nat_string_head [of k "[]"] nat_string_digits [of k] by (simp add: html_exponent_def Let_def)

lemma html_float_int_string [simp]: "html_float (int_string m) = Some (of_int m)"
  using html_float_int_string_exp [of "[]" 0 m] by (simp add: html_exponent_def scale_value_def)

lemma html_float_int_string_e [simp]:
  "html_float (int_string m @ CHR ''e'' # nat_string k) = Some (of_int m * 10 ^ k)"
proof -
  have "\<not> is_digit CHR ''e''" by (simp add: is_digit_def radix_digit_def digit_value_def)
  then show ?thesis
    using html_float_int_string_exp [of "CHR ''e'' # nat_string k" "int k" m]
    by (simp add: scale_value_def)
qed

section \<open>Integer texts with a negative exponent\<close>

lemma html_exponent_neg [simp]:
  "html_exponent (CHR ''e'' # CHR ''-'' # nat_string k) = Some (- int k)"
  using nat_string_digits [of k] by (simp add: html_exponent_def strip_sign_def Let_def)

lemma html_float_scaled_down:
  "html_float (nat_string n @ CHR ''e'' # CHR ''-'' # nat_string k) = Some (of_nat n / 10 ^ k)"
proof -
  have "\<not> is_digit CHR ''e''" by (simp add: is_digit_def radix_digit_def digit_value_def)
  then show ?thesis
    using html_float_nat_string_exp [of "CHR ''e'' # CHR ''-'' # nat_string k" "- int k" n]
    by (simp add: scale_value_def)
qed

lemma int_string_of_nat: "int_string (int n) = nat_string n"
  by (simp add: int_string_def)

lemma is_integral_of_int [simp]: "is_integral (of_int m)"
  by (simp add: is_integral_def)

section \<open>Texts without digits\<close>

lemma digit_run_no_digit: "\<forall>c \<in> set S. \<not> is_digit c \<Longrightarrow> digit_run 10 S = []"
  by (cases S) (auto simp: is_digit_def split: option.splits)

lemma strip_sign_set: "strip_sign S = (sg, S') \<Longrightarrow> set S' \<subseteq> set S"
  by (auto simp: strip_sign_def split: list.splits if_splits)

lemma strip_prefix_set:
  "strip_prefix S = (R, S') \<Longrightarrow> set S' \<subseteq> set S \<and> (R = 16 \<longrightarrow> CHR ''0'' \<in> set S)"
  by (auto simp: strip_prefix_def split: list.splits if_splits)

lemma parseInt_no_digit:
  assumes "\<forall>c \<in> set s. \<not> is_digit c"
  shows "parseInt s = NaN"
proof -
  obtain sg S1 where sg: "strip_sign (dropWhile js_whitespace s) = (sg, S1)" by fastforce
  obtain R S2 where R: "strip_prefix S1 = (R, S2)" by fastforce
  have sub: "set S2 \<subseteq> set s" and z: "R = 16 \<longrightarrow> CHR ''0'' \<in> set s"
    using strip_sign_set [OF sg] strip_prefix_set [OF R] set_dropWhileD [of _ js_whitespace s] by blast+
  have "\<not> is_digit CHR ''0''" if "CHR ''0'' \<in> set s" using assms that by blast
  then have "R \<noteq> 16" using z by (auto simp: is_digit_def radix_digit_def digit_value_def)
  then have "R = 10" using strip_prefix_cases [OF R] by blast
  have "digit_run R S2 = []"
    using \<open>R = 10\<close> sub assms by (auto intro: digit_run_no_digit)
  then show ?thesis using sg R by (simp add: parseInt_def)
qed

end
