(* ===== verification/InvoiceForm.thy ===== *)
theory InvoiceForm
  imports HtmlInput
begin

text \<open>
  The create-invoice page, \<open>src/src/pages/CreateInvoice.tsx\<close>.  Its state is
  \<open>formData\<close>, four strings held as typed (\<open>invoice_form\<close>).  Its handlers are
  \<open>handleInputChange\<close> (one field overwritten by its key) and
  \<open>handleSubmit\<close> (prevent the browser's submission, return early without a
  user, call \<open>createInvoice\<close> with the fields converted by \<open>parseInt\<close>, reset
  the form, navigate to \<open>/invoices\<close>).  A handler's effects are returned as
  the list of calls it makes, in order.  Rendering reads \<open>user.id\<close> before the
  \<open>!user\<close> test, so it is a \<open>js_result\<close>.  The JSX wires the handlers to
  the inputs and buttons (\<open>form_step\<close>) and gives the number inputs their
  constraints (\<open>month_input_valid\<close>, \<open>amount_input_valid\<close>), which the
  browser checks before it fires \<open>submit\<close>.
\<close>

section \<open>State, payload, effects, view\<close>

record invoice_form =
  fd_month :: string
  fd_sales_amount :: string
  fd_invoice_date :: string
  fd_description :: string

record invoice_input =
  month :: js_int
  sales_amount :: js_int
  invoice_date :: string
  description :: "string option"

datatype form_effect =
    PreventDefault
  | CallCreateInvoice invoice_input
  | Navigate route

datatype form_view =
    LoginPrompt string
  | InvoiceFormView invoice_form bool string

datatype form_event =
    Input string string
  | Submit
  | Cancel

section \<open>Operations\<close>

text \<open>\<open>new Date().toISOString().split('T')[0]\<close>: the text before the first \<open>T\<close>.\<close>

definition iso_date :: "string \<Rightarrow> string" where
  "iso_date stamp = takeWhile (\<lambda>c. c \<noteq> CHR ''T'') stamp"

definition initial_form :: "string \<Rightarrow> invoice_form" where
  "initial_form now =
     \<lparr>fd_month = [], fd_sales_amount = [], fd_invoice_date = iso_date now, fd_description = []\<rparr>"

definition submitted_input :: "invoice_form \<Rightarrow> invoice_input" where
  "submitted_input fd =
     \<lparr>month = parseInt (fd_month fd),
      sales_amount = parseInt (fd_sales_amount fd),
      invoice_date = fd_invoice_date fd,
      description = or_undefined (fd_description fd)\<rparr>"

definition handleSubmit :: "session \<Rightarrow> string \<Rightarrow> invoice_form \<Rightarrow> invoice_form \<times> form_effect list" where
  "handleSubmit user now fd =
     (if user = None then (fd, [PreventDefault])
      else (initial_form now,
            [PreventDefault, CallCreateInvoice (submitted_input fd), Navigate ''/invoices'']))"

text \<open>
  \<open>{...prev, [field]: value}\<close>: the key names the field.  The page only
  passes the four keys below; any other key would add a property that
  nothing reads, so the observable form is unchanged.
\<close>

definition handleInputChange :: "string \<Rightarrow> string \<Rightarrow> invoice_form \<Rightarrow> invoice_form" where
  "handleInputChange field value prev =
     (if field = ''month'' then prev\<lparr>fd_month := value\<rparr>
      else if field = ''sales_amount'' then prev\<lparr>fd_sales_amount := value\<rparr>
      else if field = ''invoice_date'' then prev\<lparr>fd_invoice_date := value\<rparr>
      else if field = ''description'' then prev\<lparr>fd_description := value\<rparr>
      else prev)"

text \<open>\<open>formData[field]\<close> for the four keys.\<close>

definition field_of :: "string \<Rightarrow> invoice_form \<Rightarrow> string" where
  "field_of field fd =
     (if field = ''month'' then fd_month fd
      else if field = ''sales_amount'' then fd_sales_amount fd
      else if field = ''invoice_date'' then fd_invoice_date fd
      else fd_description fd)"

definition create_invoice_page :: "session \<Rightarrow> bool \<Rightarrow> invoice_form \<Rightarrow> form_view" where
  "create_invoice_page user isCreating fd =
     (if user = None then LoginPrompt ''Please log in to create invoices.''
      else InvoiceFormView fd isCreating
             (if isCreating then ''Creating...'' else ''Create Invoice''))"

definition CreateInvoice :: "session \<Rightarrow> bool \<Rightarrow> invoice_form \<Rightarrow> form_view js_result" where
  "CreateInvoice user isCreating fd =
     (case user of
        None \<Rightarrow> Inl (TypeError ''Cannot read properties of null (reading 'id')'')
      | Some u \<Rightarrow> Inr (create_invoice_page user isCreating fd))"

text \<open>
  The constraints of the inputs: month is \<open>type="number" min="1" max="12"
  required\<close> (step 1 from the base 1), the sales amount \<open>type="number"
  min="0" required\<close> (step 1 from the base 0), the date \<open>type="date"
  required\<close>.  A number input with text that is not a valid floating-point
  number has bad input and blocks submission.
\<close>

definition month_input_valid :: "string \<Rightarrow> bool" where
  "month_input_valid t =
     (case html_float t of None \<Rightarrow> False | Some v \<Rightarrow> 1 \<le> v \<and> v \<le> 12 \<and> is_integral (v - 1))"

definition amount_input_valid :: "string \<Rightarrow> bool" where
  "amount_input_valid t =
     (case html_float t of None \<Rightarrow> False | Some v \<Rightarrow> 0 \<le> v \<and> is_integral v)"

definition form_valid :: "invoice_form \<Rightarrow> bool" where
  "form_valid fd \<longleftrightarrow>
     month_input_valid (fd_month fd) \<and> fd_invoice_date fd \<noteq> [] \<and>
     amount_input_valid (fd_sales_amount fd)"

text \<open>
  One user event on the mounted page: typing into an input (\<open>onChange\<close>),
  pressing the submit button or Enter (the browser fires \<open>onSubmit\<close> only
  when the submit button is enabled, i.e. \<open>isCreating\<close> is false, and the
  constraints hold), or pressing Cancel.
\<close>

fun form_step :: "session \<Rightarrow> bool \<Rightarrow> string \<Rightarrow> invoice_form \<Rightarrow> form_event \<Rightarrow> invoice_form \<times> form_effect list" where
  "form_step user isCreating now fd (Input field value) = (handleInputChange field value fd, [])"
| "form_step user isCreating now fd Submit =
     (if \<not> isCreating \<and> form_valid fd then handleSubmit user now fd else (fd, []))"
| "form_step user isCreating now fd Cancel = (fd, [Navigate ''/invoices''])"

text \<open>
  A run of events on one mounted page: after a navigation the route changes
  and the page unmounts, so later events reach another page.
\<close>

fun form_run :: "session \<Rightarrow> bool \<Rightarrow> string \<Rightarrow> invoice_form \<Rightarrow> form_event list \<Rightarrow> form_effect list" where
  "form_run user isCreating now fd [] = []"
| "form_run user isCreating now fd (e # es) =
     (let (fd', effs) = form_step user isCreating now fd e
      in effs @ (if Navigate ''/invoices'' \<in> set effs then [] else form_run user isCreating now fd' es))"

primrec is_create :: "form_effect \<Rightarrow> bool" where
  "is_create PreventDefault = False"
| "is_create (CallCreateInvoice x) = True"
| "is_create (Navigate r) = False"

definition input_run :: "invoice_form \<Rightarrow> (string \<times> string) list \<Rightarrow> invoice_form" where
  "input_run fd evs = foldl (\<lambda>f (field, value). handleInputChange field value f) fd evs"

section \<open>Properties\<close>

lemma submitted_input_integers:
  "fd_month fd = int_string m \<Longrightarrow> fd_sales_amount fd = int_string a \<Longrightarrow>
   \<bar>m\<bar> < 2 ^ 53 \<Longrightarrow> \<bar>a\<bar> < 2 ^ 53 \<Longrightarrow>
   submitted_input fd = \<lparr>month = Num m, sales_amount = Num a, invoice_date = fd_invoice_date fd,
     description = or_undefined (fd_description fd)\<rparr>"
  by (simp add: submitted_input_def parseInt_roundtrip double_of_int_exact)

text \<open>
  C1: submitting the form with integer texts in the month
  and amount fields (Scenario B of the spec) prevents the browser's submission,
  calls \<open>createInvoice\<close> once with those integers (exact as Numbers: below
  \<open>2^53\<close> in magnitude), the date as typed and an
  empty description as \<open>undefined\<close>, resets the form to the defaults of the
  moment of submission, and navigates to \<open>/invoices\<close>, in that order.
\<close>

theorem handleSubmit_integers:
  assumes "user \<noteq> None" and "fd_month fd = int_string m" and "fd_sales_amount fd = int_string a"
    and "\<bar>m\<bar> < 2 ^ 53" and "\<bar>a\<bar> < 2 ^ 53"
  shows "handleSubmit user now fd =
    (initial_form now,
     [PreventDefault,
      CallCreateInvoice \<lparr>month = Num m, sales_amount = Num a, invoice_date = fd_invoice_date fd,
        description = or_undefined (fd_description fd)\<rparr>,
      Navigate ''/invoices''])"
  using assms by (simp add: handleSubmit_def submitted_input_integers)

lemma handleSubmit_integers_witness:
  "handleSubmit (Some \<lparr>user_id = ''u1'', email = ''a@example.com''\<rparr>) ''2024-03-01T09:30:00.000Z''
     \<lparr>fd_month = ''3'', fd_sales_amount = ''15000'', fd_invoice_date = ''2024-03-01'', fd_description = ''''\<rparr> =
   (\<lparr>fd_month = '''', fd_sales_amount = '''', fd_invoice_date = ''2024-03-01'', fd_description = ''''\<rparr>,
    [PreventDefault,
     CallCreateInvoice \<lparr>month = Num 3, sales_amount = Num 15000, invoice_date = ''2024-03-01'',
       description = None\<rparr>,
     Navigate ''/invoices''])"
proof -
  have m: "int_string 3 = ''3''" and a: "int_string 15000 = ''15000''"
    by (simp_all add: int_string_eval)
  have d: "iso_date ''2024-03-01T09:30:00.000Z'' = ''2024-03-01''"
    by (simp add: iso_date_def)
  show ?thesis
    using handleSubmit_integers [of "Some \<lparr>user_id = ''u1'', email = ''a@example.com''\<rparr>"
        "\<lparr>fd_month = ''3'', fd_sales_amount = ''15000'', fd_invoice_date = ''2024-03-01'',
          fd_description = ''''\<rparr>" 3 15000 "''2024-03-01T09:30:00.000Z''"]
    by (simp add: m a d initial_form_def)
qed

text \<open>
  C3: a number text in exponent form \<open>m e k\<close>, with \<open>m\<close>
  below \<open>2^53\<close> in magnitude (exact as a Number),
  denotes \<open>m\<cdot>10^k\<close> to the browser, but \<open>parseInt\<close> submits \<open>m\<close>, in the
  month field and in the sales-amount field alike.  The witness is a form the
  browser's constraints accept (\<open>1e1\<close> is the month 10, \<open>15e3\<close> the amount
  15000 cents) whose payload is month 1, amount 15.
\<close>

theorem submitted_exponent_truncated:
  assumes "t = int_string m @ CHR ''e'' # nat_string k" and "\<bar>m\<bar> < 2 ^ 53"
  shows "html_float t = Some (of_int m * 10 ^ k) \<and>
         (fd_month fd = t \<longrightarrow> month (submitted_input fd) = Num m) \<and>
         (fd_sales_amount fd = t \<longrightarrow> sales_amount (submitted_input fd) = Num m)"
  using assms parseInt_stops_at_exponent [of "CHR ''e''" m "nat_string k"]
  by (simp add: submitted_input_def double_of_int_exact)

lemma submitted_exponent_truncated_witness:
  "month_input_valid ''1e1'' \<and> html_float ''1e1'' = Some 10 \<and>
   month (submitted_input \<lparr>fd_month = ''1e1'', fd_sales_amount = ''15e3'',
     fd_invoice_date = ''2024-03-01'', fd_description = ''''\<rparr>) = Num 1"
proof -
  have t1: "''1e1'' = int_string 1 @ CHR ''e'' # nat_string 1" by code_simp
  have v: "month_input_valid ''1e1''" by code_simp
  note th = submitted_exponent_truncated [OF t1 _, of "\<lparr>fd_month = ''1e1'', fd_sales_amount = ''15e3'',
       fd_invoice_date = ''2024-03-01'', fd_description = ''''\<rparr>"]
  have a: "html_float ''1e1'' = Some 10" using th by simp
  have b: "month (submitted_input \<lparr>fd_month = ''1e1'', fd_sales_amount = ''15e3'',
     fd_invoice_date = ''2024-03-01'', fd_description = ''''\<rparr>) = Num 1" using th by simp
  from v a b show ?thesis by (intro conjI)
qed

lemma html_float_no_digit:
  assumes "\<forall>c \<in> set s. \<not> is_digit c"
  shows "html_float s = None"
proof -
  have tw: "takeWhile is_digit t = []" "dropWhile is_digit t = t" if "set t \<subseteq> set s" for t
    using assms that by (cases t; auto)+
  have tl_sub: "set (tl t) \<subseteq> set t" for t :: string by (cases t) auto
  have sub: "set (tl s) \<subseteq> set s" "set (tl (tl s)) \<subseteq> set s"
    using tl_sub [of s] tl_sub [of "tl s"] by auto
  show ?thesis
    using tw [of s] tw [of "tl s"] tw [of "tl (tl s)"] sub
    by (auto simp: html_float_def Let_def split: list.splits if_splits)
qed

text \<open>
  C20: a month text without any decimal digit
  never reaches \<open>createInvoice\<close>: the number input marks it as bad input, so
  the browser does not fire \<open>submit\<close> and the submit step changes nothing.
  The \<open>NaN\<close> the spec expects from non-numeric text arises only from texts
  the input accepts (\<open>submitted_leading_dot_nan\<close>).
\<close>

theorem submitted_no_digit_blocked:
  assumes "\<forall>c \<in> set (fd_month fd). \<not> is_digit c"
  shows "\<not> month_input_valid (fd_month fd) \<and> form_step user isCreating now fd Submit = (fd, [])"
  using html_float_no_digit [OF assms] by (simp add: month_input_valid_def form_valid_def)

theorem submitted_no_digit_blocked_witness:
  "\<not> month_input_valid ''twelve'' \<and>
   form_step (Some \<lparr>user_id = ''u1'', email = ''a@example.com''\<rparr>) False ''2024-03-01T09:30:00.000Z''
     \<lparr>fd_month = ''twelve'', fd_sales_amount = ''100'', fd_invoice_date = ''2024-03-01'', fd_description = ''''\<rparr>
     Submit =
   (\<lparr>fd_month = ''twelve'', fd_sales_amount = ''100'', fd_invoice_date = ''2024-03-01'', fd_description = ''''\<rparr>, [])"
proof -
  let ?fd = "\<lparr>fd_month = ''twelve'', fd_sales_amount = ''100'', fd_invoice_date = ''2024-03-01'', fd_description = ''''\<rparr>"
  have h: "\<forall>c \<in> set (fd_month ?fd). \<not> is_digit c"
    by (simp add: is_digit_def radix_digit_def digit_value_def)
  from submitted_no_digit_blocked [OF h, where user = "Some \<lparr>user_id = ''u1'', email = ''a@example.com''\<rparr>"
      and isCreating = False and now = "''2024-03-01T09:30:00.000Z''"] show ?thesis by simp
qed

text \<open>
  C19: a month text that starts with a decimal point is
  submitted as \<open>NaN\<close>, although the browser accepts such a text: \<open>.5e1\<close> is
  the valid month 5.
\<close>

theorem submitted_leading_dot_nan:
  assumes "fd_month fd = CHR ''.'' # rest"
  shows "month (submitted_input fd) = NaN"
  using assms
  by (cases rest) (simp_all add: submitted_input_def parseInt_def js_whitespace_def strip_sign_def
      strip_prefix_def radix_digit_def digit_value_def)

lemma submitted_leading_dot_nan_witness:
  "month_input_valid ''.5e1'' \<and> html_float ''.5e1'' = Some 5 \<and>
   month (submitted_input \<lparr>fd_month = ''.5e1'', fd_sales_amount = ''100'', fd_invoice_date = ''2024-03-01'',
     fd_description = ''''\<rparr>) = NaN"
proof -
  have v: "month_input_valid ''.5e1''" and f: "html_float ''.5e1'' = Some 5" by code_simp+
  have "month (submitted_input \<lparr>fd_month = CHR ''.'' # ''5e1'', fd_sales_amount = ''100'',
      fd_invoice_date = ''2024-03-01'', fd_description = ''''\<rparr>) = NaN"
    by (rule submitted_leading_dot_nan) simp
  with v f show ?thesis by simp
qed

lemma form_step_creates:
  "length (filter is_create (snd (form_step user isCreating now fd e))) \<le> 1 \<and>
   (filter is_create (snd (form_step user isCreating now fd e)) \<noteq> [] \<longrightarrow>
      Navigate ''/invoices'' \<in> set (snd (form_step user isCreating now fd e)))"
  by (cases e) (auto simp: handleSubmit_def)

lemma form_step_creating: "filter is_create (snd (form_step user True now fd e)) = []"
  by (cases e) auto

lemma form_run_creating: "filter is_create (form_run user True now fd es) = []"
proof (induction es arbitrary: fd)
  case (Cons e es)
  obtain fd' effs where "form_step user True now fd e = (fd', effs)" by fastforce
  with form_step_creating [of user now fd e] Cons.IH [of fd'] show ?case by simp
qed simp

lemma form_run_at_most_one: "length (filter is_create (form_run user isCreating now fd es)) \<le> 1"
proof (induction es arbitrary: fd)
  case Nil
  then show ?case by simp
next
  case (Cons e es)
  obtain fd' effs where step: "form_step user isCreating now fd e = (fd', effs)" by fastforce
  have one: "length (filter is_create effs) \<le> 1"
    and nav: "filter is_create effs \<noteq> [] \<longrightarrow> Navigate ''/invoices'' \<in> set effs"
    using form_step_creates [of user isCreating now fd e] step by simp_all
  show ?case
  proof (cases "Navigate ''/invoices'' \<in> set effs")
    case True
    with one step show ?thesis by simp
  next
    case False
    with nav have "filter is_create effs = []" by blast
    with False step Cons.IH [of fd'] show ?thesis by simp
  qed
qed

text \<open>
  C9: on one mounted create-invoice page, whatever the
  user types, submits or cancels, \<open>createInvoice\<close> is called at most once: the
  submission that calls it also navigates away; and while a creation is in
  flight (\<open>isCreating\<close>, the submit button disabled) it is not called at all.
\<close>

theorem form_run_single_create:
  "length (filter is_create (form_run user isCreating now fd es)) \<le> 1 \<and>
   filter is_create (form_run user True now fd es) = []"
  using form_run_at_most_one form_run_creating by simp

lemma field_of_handleInputChange:
  "k \<in> {''month'', ''sales_amount'', ''invoice_date'', ''description''} \<Longrightarrow>
   field_of k (handleInputChange k' v f) = (if k' = k then v else field_of k f)"
  by (auto simp: handleInputChange_def field_of_def)

text \<open>
  C24: after any sequence of input events, each field of the
  form holds the value of the last event for that field, or its previous value
  if there was none.
\<close>

theorem input_run_last_write:
  assumes "k \<in> {''month'', ''sales_amount'', ''invoice_date'', ''description''}"
  shows "field_of k (input_run fd evs) = last (field_of k fd # map snd (filter (\<lambda>(k', v). k' = k) evs))"
proof (induction evs rule: rev_induct)
  case Nil
  then show ?case by (simp add: input_run_def)
next
  case (snoc ev evs)
  obtain k' v where ev: "ev = (k', v)" by fastforce
  have "input_run fd (evs @ [ev]) = handleInputChange k' v (input_run fd evs)"
    by (simp add: input_run_def ev)
  with snoc.IH ev show ?case by (simp add: field_of_handleInputChange [OF assms])
qed

lemma input_run_last_write_witness:
  "''month'' \<in> {''month'', ''sales_amount'', ''invoice_date'', ''description''} \<and>
   field_of ''month'' (input_run (initial_form ''2024-03-01T09:30:00.000Z'')
     [(''month'', ''1''), (''description'', ''x''), (''month'', ''12'')]) = ''12''"
  using input_run_last_write [of "''month''" "initial_form ''2024-03-01T09:30:00.000Z''"
      "[(''month'', ''1''), (''description'', ''x''), (''month'', ''12'')]"]
  by simp

text \<open>
  C25: a sales amount of at most 15 characters that is
  submitted as a number has magnitude below \<open>2^53\<close>, so the JavaScript double
  is exactly the integer of this model.
\<close>

theorem submitted_amount_exact:
  assumes "length (fd_sales_amount fd) \<le> 15" and "sales_amount (submitted_input fd) = Num v"
  shows "\<bar>v\<bar> < 2 ^ 53"
  using assms parseInt_exact_range [of "fd_sales_amount fd" v] by (simp add: submitted_input_def)

lemma submitted_amount_exact_witness:
  "length ''999999999999999'' \<le> 15 \<and>
   sales_amount (submitted_input \<lparr>fd_month = ''12'', fd_sales_amount = ''999999999999999'',
     fd_invoice_date = ''2024-12-31'', fd_description = ''''\<rparr>) = Num 999999999999999 \<and>
   \<bar>999999999999999 :: int\<bar> < 2 ^ 53"
proof -
  have p: "sales_amount (submitted_input \<lparr>fd_month = ''12'', fd_sales_amount = ''999999999999999'',
     fd_invoice_date = ''2024-12-31'', fd_description = ''''\<rparr>) = Num 999999999999999"
    by (simp add: submitted_input_def parseInt_def js_whitespace_def strip_sign_def strip_prefix_def
        radix_digit_def digit_value_def digits_value_def double_of_int_exact)
  show ?thesis using p submitted_amount_exact [OF _ p] by simp
qed

lemma month_input_valid_int: "month_input_valid (int_string m) \<longleftrightarrow> 1 \<le> m \<and> m \<le> 12"
proof -
  have "is_integral (of_int m - 1)" using is_integral_of_int [of "m - 1"] by simp
  then show ?thesis by (simp add: month_input_valid_def)
qed

lemma amount_input_valid_int: "amount_input_valid (int_string a) \<longleftrightarrow> 0 \<le> a"
  by (simp add: amount_input_valid_def)

text \<open>
  C15: when the month and amount fields hold
  integer texts (the amount exact as a Number, below \<open>2^53\<close>) and the
  browser lets the form submit, the submitted invoice satisfies the spec's
  invariant: month in 1..12 and a non-negative amount.
\<close>

theorem submitted_invariant_integers:
  assumes "form_valid fd" and "fd_month fd = int_string m" and "fd_sales_amount fd = int_string a"
    and "\<bar>a\<bar> < 2 ^ 53"
  shows "month (submitted_input fd) = Num m \<and> 1 \<le> m \<and> m \<le> 12 \<and>
         sales_amount (submitted_input fd) = Num a \<and> 0 \<le> a"
proof -
  have m: "1 \<le> m \<and> m \<le> 12" and a: "0 \<le> a"
    using assms(1-3) by (simp_all add: form_valid_def month_input_valid_int amount_input_valid_int)
  then have "\<bar>m\<bar> < 2 ^ 53" by simp
  with m a assms(2-4) show ?thesis by (simp add: submitted_input_integers)
qed

theorem submitted_invariant_integers_witness:
  "month (submitted_input \<lparr>fd_month = ''3'', fd_sales_amount = ''15000'',
     fd_invoice_date = ''2024-03-01'', fd_description = ''''\<rparr>) = Num 3"
proof -
  let ?fd = "\<lparr>fd_month = ''3'', fd_sales_amount = ''15000'', fd_invoice_date = ''2024-03-01'', fd_description = ''''\<rparr>"
  have m0: "int_string 3 = ''3''" and a0: "int_string 15000 = ''15000''"
    by (simp_all add: int_string_eval)
  have m: "fd_month ?fd = int_string 3" and a: "fd_sales_amount ?fd = int_string 15000"
    by (simp_all only: m0 a0 invoice_form.select_convs)
  have v: "form_valid ?fd"
    unfolding form_valid_def m a by (simp add: month_input_valid_int amount_input_valid_int)
  have b: "\<bar>15000::int\<bar> < 2 ^ 53" by simp
  from submitted_invariant_integers [OF v m a b] show ?thesis by simp
qed

text \<open>
  C4: the spec's invariant is not enforced by the
  input constraints: a month \<open>v\<close> written as \<open>v*10^k\<close> with exponent
  \<open>-k\<close> is accepted by the month input (its value is \<open>v\<close>), and
  \<open>parseInt\<close> submits \<open>v*10^k\<close> (exact while below \<open>2^53\<close>):
  \<open>100e-1\<close> is stored as month 100.
\<close>

theorem submitted_month_scaled:
  assumes "1 \<le> v" and "v \<le> 12" and "fd_month fd = nat_string (v * 10 ^ k) @ CHR ''e'' # CHR ''-'' # nat_string k"
    and "v * 10 ^ k < 2 ^ 53"
  shows "month_input_valid (fd_month fd) \<and> html_float (fd_month fd) = Some (of_nat v) \<and>
         month (submitted_input fd) = Num (int (v * 10 ^ k))"
proof -
  have f: "html_float (fd_month fd) = Some (of_nat v)"
    using assms(3) html_float_scaled_down [of "v * 10 ^ k" k] by simp
  have "is_integral (of_nat v - 1)" using is_integral_of_int [of "int v - 1"] by simp
  with f assms(1,2) have "month_input_valid (fd_month fd)" by (simp add: month_input_valid_def)
  moreover have "parseInt (fd_month fd) = Num (int (v * 10 ^ k))"
  proof -
    from assms(4) have "int (v * 10 ^ k) < int (2 ^ 53)" by (simp only: of_nat_less_iff)
    then have x: "\<bar>int (v * 10 ^ k)\<bar> < 2 ^ 53" by simp
    have "parseInt (int_string (int (v * 10 ^ k)) @ CHR ''e'' # CHR ''-'' # nat_string k) =
        double_of_int (int (v * 10 ^ k))"
      by (rule parseInt_stops_at_exponent) simp
    then show ?thesis unfolding assms(3) by (simp only: int_string_of_nat double_of_int_exact [OF x])
  qed
  ultimately show ?thesis using f by (simp add: submitted_input_def)
qed

theorem submitted_month_scaled_witness:
  "month_input_valid ''100e-1'' \<and> html_float ''100e-1'' = Some 10 \<and>
   month (submitted_input \<lparr>fd_month = ''100e-1'', fd_sales_amount = ''15000'',
     fd_invoice_date = ''2024-03-01'', fd_description = ''''\<rparr>) = Num 100"
proof -
  let ?fd = "\<lparr>fd_month = ''100e-1'', fd_sales_amount = ''15000'',
     fd_invoice_date = ''2024-03-01'', fd_description = ''''\<rparr>"
  have t0: "''100e-1'' = nat_string (10 * 10 ^ 1) @ CHR ''e'' # CHR ''-'' # nat_string 1" by code_simp
  have t: "fd_month ?fd = nat_string (10 * 10 ^ 1) @ CHR ''e'' # CHR ''-'' # nat_string 1"
    by (simp only: t0 invoice_form.select_convs)
  from submitted_month_scaled [OF _ _ t] have
    "month_input_valid (fd_month ?fd) \<and> html_float (fd_month ?fd) = Some (of_nat 10) \<and>
     month (submitted_input ?fd) = Num (int (10 * 10 ^ 1))" by simp
  then show ?thesis by simp
qed

end
