(* ===== verification/DateFormat.thy ===== *)
theory DateFormat
  imports JsParseInt "HOL-Library.Monad_Syntax"
begin

text \<open>
  \<open>formatDate(dateString)\<close> of \<open>src/src/pages/Invoices.tsx\<close>:
  \<open>new Date(dateString).toLocaleDateString('en-US', {year: 'numeric',
  month: 'short', day: 'numeric'})\<close>.  The environment part is the ECMA-262
  Date Time String Format (\<open>YYYY-MM-DD\<close>, optionally followed by
  \<open>THH:mm\<close>, \<open>:ss\<close>, a fraction, and \<open>Z\<close> or \<open>+HH:mm\<close>/\<open>-HH:mm\<close>), in
  which a date-only string denotes midnight UTC and a date-time without offset
  denotes local time; an ill-formed string or an out-of-range field gives an
  invalid date, which \<open>toLocaleDateString\<close> renders as \<open>Invalid Date\<close>.
  Fractions of any length are accepted, as V8 does for the timestamps the
  database returns.  The browser's time zone is a fixed offset \<open>tz\<close> in
  minutes east of UTC (daylight saving time is not modelled); the local date of
  an instant is its UTC date moved by the whole days in \<open>minutes + tz\<close>.
\<close>

section \<open>Calendar dates\<close>

record civil_date =
  cd_year :: int
  cd_month :: nat
  cd_day :: nat

definition leap_year :: "int \<Rightarrow> bool" where
  "leap_year y \<longleftrightarrow> 4 dvd y \<and> (\<not> 100 dvd y \<or> 400 dvd y)"

definition days_in_month :: "int \<Rightarrow> nat \<Rightarrow> nat" where
  "days_in_month y m =
     (if m = 2 then (if leap_year y then 29 else 28)
      else if m \<in> {4, 6, 9, 11} then 30 else 31)"

definition valid_date :: "civil_date \<Rightarrow> bool" where
  "valid_date d \<longleftrightarrow>
     1 \<le> cd_month d \<and> cd_month d \<le> 12 \<and> 1 \<le> cd_day d \<and> cd_day d \<le> days_in_month (cd_year d) (cd_month d)"

definition next_day :: "civil_date \<Rightarrow> civil_date" where
  "next_day d =
     (if cd_day d < days_in_month (cd_year d) (cd_month d) then d\<lparr>cd_day := Suc (cd_day d)\<rparr>
      else if cd_month d < 12 then \<lparr>cd_year = cd_year d, cd_month = Suc (cd_month d), cd_day = 1\<rparr>
      else \<lparr>cd_year = cd_year d + 1, cd_month = 1, cd_day = 1\<rparr>)"

definition prev_day :: "civil_date \<Rightarrow> civil_date" where
  "prev_day d =
     (if 1 < cd_day d then d\<lparr>cd_day := cd_day d - 1\<rparr>
      else if 1 < cd_month d
      then \<lparr>cd_year = cd_year d, cd_month = cd_month d - 1,
            cd_day = days_in_month (cd_year d) (cd_month d - 1)\<rparr>
      else \<lparr>cd_year = cd_year d - 1, cd_month = 12, cd_day = 31\<rparr>)"

definition shift_days :: "int \<Rightarrow> civil_date \<Rightarrow> civil_date" where
  "shift_days n d = (if 0 \<le> n then (next_day ^^ nat n) d else (prev_day ^^ nat (- n)) d)"

section \<open>Parsing the Date Time String Format\<close>

definition take_digits :: "nat \<Rightarrow> string \<Rightarrow> (nat \<times> string) option" where
  "take_digits k s =
     (case those (map (radix_digit 10) (take k s)) of
        Some ds \<Rightarrow> if length ds = k then Some (digits_value 10 ds, drop k s) else None
      | None \<Rightarrow> None)"

definition expect :: "char \<Rightarrow> string \<Rightarrow> string option" where
  "expect c s = (case s of d # r \<Rightarrow> if d = c then Some r else None | [] \<Rightarrow> None)"

datatype date_offset = LocalTime | UtcOffset int

text \<open>The offset suffix, in minutes east of UTC.\<close>

definition parse_offset :: "string \<Rightarrow> date_offset option" where
  "parse_offset s =
     (case s of
        [] \<Rightarrow> Some LocalTime
      | c # r \<Rightarrow>
          if c = CHR ''Z'' then (if r = [] then Some (UtcOffset 0) else None)
          else if c = CHR ''+'' \<or> c = CHR ''-'' then
            do { (h, r1) \<leftarrow> take_digits 2 r; r2 \<leftarrow> expect CHR '':'' r1; (mi, r3) \<leftarrow> take_digits 2 r2;
                 if r3 = [] \<and> h \<le> 23 \<and> mi \<le> 59
                 then Some (UtcOffset ((if c = CHR ''-'' then -1 else 1) * int (h * 60 + mi)))
                 else None }
          else None)"

text \<open>Optional \<open>:ss\<close> with an optional fraction of at least one digit.\<close>

definition parse_seconds :: "string \<Rightarrow> (nat \<times> string) option" where
  "parse_seconds s =
     (case s of
        c # r \<Rightarrow>
          if c = CHR '':'' then
            do { (sec, r1) \<leftarrow> take_digits 2 r;
                 if sec \<le> 59 then
                   (case r1 of
                      f # r2 \<Rightarrow> if f = CHR ''.'' then
                                 (let ds = digit_run 10 r2 in
                                  if ds = [] then None else Some (sec, drop (length ds) r2))
                               else Some (sec, r1)
                    | [] \<Rightarrow> Some (sec, r1))
                 else None }
          else Some (0, s)
      | [] \<Rightarrow> Some (0, []))"

text \<open>After the \<open>T\<close>: the minute of the day and the offset.\<close>

definition parse_time :: "string \<Rightarrow> (nat \<times> date_offset) option" where
  "parse_time s =
     do { (h, r1) \<leftarrow> take_digits 2 s; r2 \<leftarrow> expect CHR '':'' r1; (mi, r3) \<leftarrow> take_digits 2 r2;
          (sec, r4) \<leftarrow> parse_seconds r3; off \<leftarrow> parse_offset r4;
          if (h \<le> 23 \<and> mi \<le> 59) \<or> (h = 24 \<and> mi = 0 \<and> sec = 0) then Some (h * 60 + mi, off) else None }"

definition parse_date_time :: "string \<Rightarrow> (civil_date \<times> nat \<times> date_offset) option" where
  "parse_date_time s =
     do { (y, r1) \<leftarrow> take_digits 4 s; r2 \<leftarrow> expect CHR ''-'' r1; (m, r3) \<leftarrow> take_digits 2 r2;
          r4 \<leftarrow> expect CHR ''-'' r3; (d, r5) \<leftarrow> take_digits 2 r4;
          let cd = \<lparr>cd_year = int y, cd_month = m, cd_day = d\<rparr>;
          if \<not> valid_date cd then None
          else (case r5 of
                  [] \<Rightarrow> Some (cd, 0, UtcOffset 0)
                | c # r6 \<Rightarrow> if c = CHR ''T'' then do { (mins, off) \<leftarrow> parse_time r6; Some (cd, mins, off) }
                           else None) }"

section \<open>Rendering\<close>

definition short_months :: "string list" where
  "short_months = [''Jan'', ''Feb'', ''Mar'', ''Apr'', ''May'', ''Jun'',
                   ''Jul'', ''Aug'', ''Sep'', ''Oct'', ''Nov'', ''Dec'']"

text \<open>\<open>en-US\<close> with \<open>month: 'short', day: 'numeric', year: 'numeric'\<close>: \<open>Mar 1, 2024\<close>.\<close>

definition show_date :: "civil_date \<Rightarrow> string" where
  "show_date d = short_months ! (cd_month d - 1) @ CHR '' '' # nat_string (cd_day d) @ '', '' @ int_string (cd_year d)"

definition local_date :: "int \<Rightarrow> civil_date \<times> nat \<times> date_offset \<Rightarrow> civil_date" where
  "local_date tz x =
     (case x of (cd, mins, LocalTime) \<Rightarrow> shift_days (int mins div 1440) cd
              | (cd, mins, UtcOffset off) \<Rightarrow> shift_days ((int mins - off + tz) div 1440) cd)"

definition formatDate :: "int \<Rightarrow> string \<Rightarrow> string" where
  "formatDate tz dateString =
     (case parse_date_time dateString of
        None \<Rightarrow> ''Invalid Date''
      | Some x \<Rightarrow> show_date (local_date tz x))"

section \<open>Printing dates as the pages store them\<close>

definition pad_digits :: "nat \<Rightarrow> nat \<Rightarrow> string" where
  "pad_digits k n = replicate (k - length (nat_string n)) CHR ''0'' @ nat_string n"

text \<open>\<open>YYYY-MM-DD\<close>, the value of an \<open><input type="date">\<close>.\<close>

definition date_string :: "civil_date \<Rightarrow> string" where
  "date_string d =
     pad_digits 4 (nat (cd_year d)) @ CHR ''-'' # pad_digits 2 (cd_month d) @ CHR ''-'' # pad_digits 2 (cd_day d)"

text \<open>\<open>Date.prototype.toISOString\<close> of an instant given by its UTC date and time.\<close>

definition iso_timestamp :: "civil_date \<Rightarrow> nat \<Rightarrow> nat \<Rightarrow> nat \<Rightarrow> nat \<Rightarrow> string" where
  "iso_timestamp d h mi sec ms =
     date_string d @ CHR ''T'' # pad_digits 2 h @ CHR '':'' # pad_digits 2 mi @ CHR '':'' # pad_digits 2 sec @
     CHR ''.'' # pad_digits 3 ms @ ''Z''"

section \<open>Properties\<close>

subsection \<open>Digits, padding and the parser\<close>

lemma length_nat_digits_le: "n < 10 ^ k \<Longrightarrow> 0 < k \<Longrightarrow> length (nat_digits n) \<le> k"
proof (induction n arbitrary: k rule: nat_digits.induct)
  case (1 n)
  show ?case
  proof (cases "n < 10")
    case True
    with "1.prems" show ?thesis by (subst nat_digits.simps) simp
  next
    case False
    have k: "2 \<le> k"
    proof (rule ccontr)
      assume "\<not> 2 \<le> k"
      with "1.prems" have "k = 1" by simp
      with "1.prems" False show False by simp
    qed
    have "n div 10 < 10 ^ (k - 1)"
      using "1.prems" k by (simp add: div_less_iff_less_mult power_eq_if)
    with "1.IH" [of "k - 1"] False k have "length (nat_digits (n div 10)) \<le> k - 1" by simp
    with False k show ?thesis by (subst nat_digits.simps) simp
  qed
qed

lemma digit_char_zero: "digit_char 0 = CHR ''0''"
  by (simp add: digit_char_def char_of_eq_iff)

lemma pad_digits_map:
  "pad_digits k n = map digit_char (replicate (k - length (nat_digits n)) 0 @ nat_digits n)"
  by (simp add: pad_digits_def nat_string_def digit_char_zero)

lemma those_map_Some: "those (map Some xs) = Some xs"
  by (induction xs) auto

lemma map_radix_digit_chars: "\<forall>d \<in> set ds. d < 10 \<Longrightarrow> map (radix_digit 10) (map digit_char ds) = map Some ds"
  by (induction ds) auto

lemma digits_value_zeros: "digits_value r (replicate j 0 @ ds) = digits_value r ds"
proof -
  have "foldl (\<lambda>acc d. acc * r + d) 0 (replicate j 0) = 0" by (induction j) auto
  then show ?thesis by (simp add: digits_value_def)
qed

lemma take_digits_pad:
  assumes "n < 10 ^ k" and "0 < k"
  shows "take_digits k (pad_digits k n @ rest) = Some (n, rest)"
proof -
  let ?ds = "replicate (k - length (nat_digits n)) 0 @ nat_digits n"
  have len: "length ?ds = k" using length_nat_digits_le [OF assms] by simp
  have lt: "\<forall>d \<in> set ?ds. d < 10" using nat_digits_lt by auto
  have t: "take k (pad_digits k n @ rest) = map digit_char ?ds"
    using len by (simp add: pad_digits_map del: replicate_append_same)
  have d: "drop k (pad_digits k n @ rest) = rest"
    using len by (simp add: pad_digits_map del: replicate_append_same)
  have th: "those (map (radix_digit 10) (map digit_char ?ds)) = Some ?ds"
    by (simp only: map_radix_digit_chars [OF lt] those_map_Some)
  show ?thesis
    unfolding take_digits_def t d th using len by (simp add: digits_value_zeros)
qed


lemma expect_cons [simp]: "expect c (c # r) = Some r"
  by (simp add: expect_def)

lemma days_in_month_le: "days_in_month y m \<le> 31"
  by (simp add: days_in_month_def)

lemma valid_date_bounds: "valid_date d \<Longrightarrow> cd_month d < 10 ^ 2 \<and> cd_day d < 10 ^ 2"
  using days_in_month_le [of "cd_year d" "cd_month d"] by (simp add: valid_date_def)

lemma parse_date_time_prefix:
  assumes "valid_date d" and "0 \<le> cd_year d" and "cd_year d < 10000"
  shows "parse_date_time (date_string d @ rest) =
    (case rest of
       [] \<Rightarrow> Some (d, 0, UtcOffset 0)
     | c # r6 \<Rightarrow> if c = CHR ''T'' then do { (mins, off) \<leftarrow> parse_time r6; Some (d, mins, off) } else None)"
proof -
  obtain y where yy: "cd_year d = int y" using assms(2) nonneg_int_cases by blast
  have y: "y < 10 ^ 4" using assms(3) yy by simp
  have md: "cd_month d < 10 ^ 2" "cd_day d < 10 ^ 2" using valid_date_bounds [OF assms(1)] by simp_all
  have cd: "\<lparr>cd_year = int y, cd_month = cd_month d, cd_day = cd_day d\<rparr> = d"
    using yy by (cases d) simp
  have s: "date_string d @ rest =
     pad_digits 4 y @ CHR ''-'' # pad_digits 2 (cd_month d) @ CHR ''-'' # pad_digits 2 (cd_day d) @ rest"
    by (simp add: date_string_def yy)
  show ?thesis
    unfolding s parse_date_time_def
    apply (simp only: take_digits_pad [OF y] take_digits_pad [OF md(1)] take_digits_pad [OF md(2)]
       expect_cons bind.simps prod.case Let_def cd)
    using assms(1) by simp
qed

lemma parse_date_time_date_string:
  assumes "valid_date d" and "0 \<le> cd_year d" and "cd_year d < 10000"
  shows "parse_date_time (date_string d) = Some (d, 0, UtcOffset 0)"
  using parse_date_time_prefix [OF assms, of "[]"] by simp

lemma shift_days_simps [simp]:
  "shift_days 0 d = d" "shift_days (-1) d = prev_day d" "shift_days 1 d = next_day d"
  by (simp_all add: shift_days_def)

lemma div_day_small: "- 1440 < t \<Longrightarrow> t < 1440 \<Longrightarrow> t div 1440 = (if t < 0 then -1 else (0::int))"
  by (auto simp: div_eq_minus1 div_pos_pos_trivial)

lemma digit_run_pad:
  "digit_run 10 (pad_digits k n @ rest) = replicate (k - length (nat_digits n)) 0 @ nat_digits n @ digit_run 10 rest"
proof -
  have "\<forall>d \<in> set (replicate (k - length (nat_digits n)) 0 @ nat_digits n). d < 10" using nat_digits_lt by auto
  from digit_run_digits [OF this, of rest] show ?thesis by (simp add: pad_digits_map)
qed

lemma length_pad_digits: "n < 10 ^ k \<Longrightarrow> 0 < k \<Longrightarrow> length (pad_digits k n) = k"
  using length_nat_digits_le [of n k] by (simp add: pad_digits_map)

lemma radix_digit_Z [simp]: "radix_digit 10 CHR ''Z'' = None"
  by (simp add: radix_digit_def digit_value_def)

lemma parse_offset_Z [simp]: "parse_offset ''Z'' = Some (UtcOffset 0)"
  by (simp add: parse_offset_def)

lemma parse_seconds_iso:
  assumes "sec < 60" and "ms < 1000"
  shows "parse_seconds (CHR '':'' # pad_digits 2 sec @ CHR ''.'' # pad_digits 3 ms @ ''Z'') = Some (sec, ''Z'')"
proof -
  have s: "sec < 10 ^ 2" and m: "ms < 10 ^ 3" and s59: "sec \<le> 59" using assms by simp_all
  define ds where "ds = replicate (3 - length (nat_digits ms)) 0 @ nat_digits ms"
  have e: "digit_run 10 (pad_digits 3 ms @ ''Z'') = ds"
    using digit_run_pad [of 3 ms "''Z''"] by (simp add: ds_def)
  have l: "length ds = 3" using length_nat_digits_le [OF m] by (simp add: ds_def)
  have "drop 3 (pad_digits 3 ms @ ''Z'') = ''Z''"
    using length_pad_digits [OF m] by simp
  then have dz: "drop (length ds) (pad_digits 3 ms @ ''Z'') = ''Z''"
    by (simp only: l)
  have ne: "ds \<noteq> []" using l by auto
  show ?thesis
    unfolding parse_seconds_def
    by (simp add: take_digits_pad [OF s] s59 Let_def e dz ne del: append.simps drop_append)
qed

lemma parse_date_time_iso:
  assumes "valid_date d" and "0 \<le> cd_year d" and "cd_year d < 10000"
    and "h < 24" and "mi < 60" and "sec < 60" and "ms < 1000"
  shows "parse_date_time (iso_timestamp d h mi sec ms) = Some (d, h * 60 + mi, UtcOffset 0)"
proof -
  have hh: "h < 10 ^ 2" and mm: "mi < 10 ^ 2" using assms(4,5) by simp_all
  have hm: "h \<le> 23 \<and> mi \<le> 59" using assms(4,5) by simp
  have t: "parse_time (pad_digits 2 h @ CHR '':'' # pad_digits 2 mi @ CHR '':'' # pad_digits 2 sec @
             CHR ''.'' # pad_digits 3 ms @ ''Z'') = Some (h * 60 + mi, UtcOffset 0)"
    unfolding parse_time_def
    by (simp add: take_digits_pad [OF hh] take_digits_pad [OF mm] parse_seconds_iso [OF assms(6,7)]
        hm del: append.simps)
  show ?thesis
    unfolding iso_timestamp_def using parse_date_time_prefix [OF assms(1-3)] t by simp
qed

subsection \<open>What \<open>formatDate\<close> shows\<close>

text \<open>
  C12: a date-only string \<open>YYYY-MM-DD\<close> (an
  \<open>invoice_date\<close>) is shown as that calendar date east of UTC and as the
  day before it west of UTC: \<open>new Date\<close> reads it as midnight UTC and
  \<open>toLocaleDateString\<close> shows the local date of that instant.
\<close>

theorem formatDate_date_only:
  assumes "valid_date d" and "0 \<le> cd_year d" and "cd_year d < 10000" and "- 1440 < tz" and "tz < 1440"
  shows "formatDate tz (date_string d) = show_date (if tz < 0 then prev_day d else d)"
  using assms(4,5)
  by (simp add: formatDate_def parse_date_time_date_string [OF assms(1-3)] local_date_def div_day_small)

theorem formatDate_date_only_witness:
  "formatDate (-300) ''2024-03-01'' = ''Feb 29, 2024''"
proof -
  let ?d = "\<lparr>cd_year = 2024, cd_month = 3, cd_day = 1\<rparr>"
  have v: "valid_date ?d" by (simp add: valid_date_def days_in_month_def)
  have s: "date_string ?d = ''2024-03-01''"
    by (simp add: date_string_def pad_digits_def int_string_eval)
  have p: "show_date (prev_day ?d) = ''Feb 29, 2024''"
    by (simp add: prev_day_def days_in_month_def leap_year_def show_date_def short_months_def int_string_eval)
  from formatDate_date_only [OF v, of "-300"] s p show ?thesis by simp
qed

end
