(* ===== verification/InvoiceList.thy ===== *)
theory InvoiceList
  imports DateFormat
begin

text \<open>
  The invoice list page, \<open>src/src/pages/Invoices.tsx\<close>.  It reads the user
  from \<open>useAuth\<close> and \<open>{invoices, isLoading, deleteInvoice, isDeleting}\<close>
  from \<open>useInvoices\<close>, and renders one of four views: a login prompt, three
  loading skeletons, one card per invoice, or an empty state with a link to
  \<open>/create-invoice\<close>.  A card shows \<open>getMonthName(invoice.month)\<close>, the
  amount through \<open>formatCurrency\<close> (cents to US dollars with
  \<open>Intl.NumberFormat('en-US', {style: 'currency', currency: 'USD'})\<close>), the
  month as a badge, the description when it is truthy, and a delete button
  that calls \<open>deleteInvoice(invoice.id)\<close> directly, disabled while any
  deletion is in flight.  The created and invoice dates go through
  \<open>formatDate\<close> (theory \<open>DateFormat\<close>) in the browser's time zone \<open>tz\<close>,
  a parameter of the render.
\<close>

section \<open>Data\<close>

text \<open>A row of the \<open>invoices\<close> table as the page reads it.\<close>

record invoice =
  inv_id :: string
  inv_month :: int
  inv_sales_amount :: int
  inv_invoice_date :: string
  inv_description :: "string option"
  inv_created_at :: string

record invoice_card =
  card_key :: string
  card_title :: string
  card_created :: string
  card_amount :: string
  card_date :: string
  card_badge :: string
  card_description :: "string option"
  card_delete_disabled :: bool

datatype invoices_view =
    InvLoginPrompt string
  | InvSkeletons nat
  | InvCards "invoice_card list"
  | InvEmpty string route

datatype list_effect = DeleteInvoice string

section \<open>Operations\<close>

definition months :: "string list" where
  "months = [''January'', ''February'', ''March'', ''April'', ''May'', ''June'',
             ''July'', ''August'', ''September'', ''October'', ''November'', ''December'']"

text \<open>
  \<open>months[month - 1] || 'Invalid Month'\<close>: an index outside the array reads
  \<open>undefined\<close>, which is falsy.
\<close>

definition getMonthName :: "int \<Rightarrow> string" where
  "getMonthName m =
     (let i = m - 1
      in if 0 \<le> i \<and> i < int (length months) then or_default (months ! nat i) ''Invalid Month''
         else ''Invalid Month'')"

text \<open>
  Thousands separators of en-US: a comma before every group of three digits
  counted from the right.
\<close>

function group3 :: "string \<Rightarrow> string" where
  "group3 ds =
     (if length ds \<le> 3 then ds
      else group3 (take (length ds - 3) ds) @ CHR '','' # drop (length ds - 3) ds)"
  by pat_completeness auto
termination
  by (relation "measure length") auto

declare group3.simps [simp del]

definition two_digits :: "nat \<Rightarrow> string" where
  "two_digits n = [digit_char (n div 10), digit_char (n mod 10)]"

text \<open>
  \<open>formatCurrency(amount)\<close>: \<open>amount\<close> is a Number, the double nearest to the
  stored integer; \<open>amount / 100\<close> is the double nearest to the quotient; and
  \<open>Intl.NumberFormat('en-US', {style: 'currency', currency: 'USD'})\<close> shows
  that double with two fraction digits, rounding its exact value half away
  from zero (\<open>halfExpand\<close>), a minus sign before the dollar sign when it is
  negative, and the infinity sign (UTF-8 bytes of U+221E) for an infinite
  value.  \<open>format_cents\<close> is the text of a whole number of cents.
\<close>

definition format_cents :: "int \<Rightarrow> string" where
  "format_cents c =
     (let n = nat \<bar>c\<bar>
      in (if c < 0 then ''-'' else []) @ ''$'' @ group3 (nat_string (n div 100)) @
         CHR ''.'' # two_digits (n mod 100))"

definition infinity_sign :: string where
  "infinity_sign = [char_of (226::nat), char_of (136::nat), char_of (158::nat)]"

definition formatCurrency :: "int \<Rightarrow> string" where
  "formatCurrency amount =
     (case to_double (of_int amount) of
        None \<Rightarrow> (if amount < 0 then ''-'' else []) @ ''$'' @ infinity_sign
      | Some a \<Rightarrow>
          (case to_double (a / 100) of
             None \<Rightarrow> (if amount < 0 then ''-'' else []) @ ''$'' @ infinity_sign
           | Some x \<Rightarrow> format_cents (round_half_expand (x * 100))))"

definition invoice_card_of :: "int \<Rightarrow> bool \<Rightarrow> invoice \<Rightarrow> invoice_card" where
  "invoice_card_of tz isDeleting row =
     \<lparr>card_key = inv_id row,
      card_title = ''Invoice for '' @ getMonthName (inv_month row),
      card_created = formatDate tz (inv_created_at row),
      card_amount = formatCurrency (inv_sales_amount row),
      card_date = formatDate tz (inv_invoice_date row),
      card_badge = ''Month '' @ int_string (inv_month row),
      card_description =
        (case inv_description row of None \<Rightarrow> None | Some d \<Rightarrow> or_undefined d),
      card_delete_disabled = isDeleting\<rparr>"

definition Invoices :: "int \<Rightarrow> session \<Rightarrow> bool \<Rightarrow> invoice list option \<Rightarrow> bool \<Rightarrow> invoices_view" where
  "Invoices tz user isLoading invoices isDeleting =
     (if user = None then InvLoginPrompt ''Please log in to view your invoices.''
      else if isLoading then InvSkeletons 3
      else (case invoices of
              Some xs \<Rightarrow> if xs \<noteq> [] then InvCards (map (invoice_card_of tz isDeleting) xs)
                         else InvEmpty ''No invoices yet'' ''/create-invoice''
            | None \<Rightarrow> InvEmpty ''No invoices yet'' ''/create-invoice''))"

text \<open>
  A click on the delete button of a card: a disabled button delivers no
  click; an enabled one calls \<open>deleteInvoice(invoice.id)\<close> at once.
\<close>

definition click_delete :: "invoice_card \<Rightarrow> list_effect list" where
  "click_delete ic =
     (if card_delete_disabled ic then [] else [DeleteInvoice (card_key ic)])"

text \<open>
  Reading an amount back from its rendering: optional minus, dollar sign,
  digits with separators, a point and two digits.
\<close>

definition currency_cents :: "string \<Rightarrow> int option" where
  "currency_cents s =
     (let (sg, r) = (case s of c # r \<Rightarrow> if c = CHR ''-'' then (-1, r) else (1, s) | [] \<Rightarrow> (1, []))
      in case r of
           c # r' \<Rightarrow>
             if c = CHR ''$'' then
               (let body = filter (\<lambda>x. x \<noteq> CHR '','') r';
                    ip = takeWhile (\<lambda>x. x \<noteq> CHR ''.'') body;
                    fp = drop (Suc (length ip)) body
                in if ip \<noteq> [] \<and> length ip < length body \<and> length fp = 2 \<and>
                      length (digit_run 10 ip) = length ip \<and> length (digit_run 10 fp) = 2
                   then Some (sg * int (digits_value 10 (digit_run 10 ip) * 100 +
                                        digits_value 10 (digit_run 10 fp)))
                   else None)
             else None
         | [] \<Rightarrow> None)"

section \<open>Properties\<close>

subsection \<open>Month names\<close>

lemma months_facts: "length months = 12" "distinct months" "\<forall>x \<in> set months. x \<noteq> [] \<and> x \<noteq> ''Invalid Month''"
  by (simp_all add: months_def)

lemma getMonthName_in_range:
  "1 \<le> m \<Longrightarrow> m \<le> 12 \<Longrightarrow> getMonthName m = months ! nat (m - 1)"
proof -
  assume m: "1 \<le> m" "m \<le> 12"
  then have i: "nat (m - 1) < length months" by (simp add: months_facts nat_less_iff)
  then have "months ! nat (m - 1) \<noteq> []" using months_facts(3) nth_mem by blast
  with i m show ?thesis
    by (cases "months ! nat (m - 1)") (simp_all add: getMonthName_def Let_def months_facts)
qed

lemma getMonthName_out_of_range:
  "m < 1 \<or> 12 < m \<Longrightarrow> getMonthName m = ''Invalid Month''"
  by (auto simp: getMonthName_def months_facts)

text \<open>
  C22: \<open>getMonthName\<close> yields \<open>'Invalid Month'\<close> exactly for
  months outside 1..12, and distinct names for distinct months inside.
\<close>

theorem getMonthName_spec:
  "(getMonthName m = ''Invalid Month'') = (m < 1 \<or> 12 < m) \<and>
   (1 \<le> m \<and> m \<le> 12 \<and> 1 \<le> m' \<and> m' \<le> 12 \<and> getMonthName m = getMonthName m' \<longrightarrow> m = m')"
proof (intro conjI impI)
  show "(getMonthName m = ''Invalid Month'') = (m < 1 \<or> 12 < m)"
  proof (cases "1 \<le> m \<and> m \<le> 12")
    case True
    then have "nat (m - 1) < length months" by (simp add: months_facts nat_less_iff)
    then have "months ! nat (m - 1) \<noteq> ''Invalid Month''" using months_facts(3) nth_mem by blast
    with True show ?thesis by (simp add: getMonthName_in_range)
  next
    case False
    then have "m < 1 \<or> 12 < m" by auto
    then show ?thesis by (simp add: getMonthName_out_of_range)
  qed
next
  assume h: "1 \<le> m \<and> m \<le> 12 \<and> 1 \<le> m' \<and> m' \<le> 12 \<and> getMonthName m = getMonthName m'"
  then have "months ! nat (m - 1) = months ! nat (m' - 1)"
    using getMonthName_in_range [of m] getMonthName_in_range [of m'] by metis
  moreover have "nat (m - 1) < length months" "nat (m' - 1) < length months"
    using h by (simp_all add: months_facts nat_less_iff)
  ultimately have "nat (m - 1) = nat (m' - 1)" using months_facts(2) nth_eq_iff_index_eq by blast
  with h eq_nat_nat_iff [of "m - 1" "m' - 1"] show "m = m'" by auto
qed

lemma getMonthName_spec_witness:
  "getMonthName 3 = ''March'' \<and> getMonthName 0 = ''Invalid Month''"
  using getMonthName_spec [of 3 3] getMonthName_spec [of 0 0]
  by (simp add: getMonthName_def months_def)

subsection \<open>Amounts\<close>

lemma filter_group3: "filter (\<lambda>x. x \<noteq> CHR '','') (group3 s) = filter (\<lambda>x. x \<noteq> CHR '','') s"
proof (induction s rule: group3.induct)
  case (1 ds)
  show ?case
  proof (cases "length ds \<le> 3")
    case True
    then show ?thesis by (simp add: group3.simps [of ds])
  next
    case False
    then have "filter (\<lambda>x. x \<noteq> CHR '','') (group3 ds) =
        filter (\<lambda>x. x \<noteq> CHR '','') (take (length ds - 3) ds) @ filter (\<lambda>x. x \<noteq> CHR '','') (drop (length ds - 3) ds)"
      using "1.IH" by (simp add: group3.simps [of ds])
    also have "\<dots> = filter (\<lambda>x. x \<noteq> CHR '','') ds"
      by (simp flip: filter_append)
    finally show ?thesis .
  qed
qed

lemma nat_string_punct: "c \<in> set (nat_string n) \<Longrightarrow> c \<noteq> CHR '','' \<and> c \<noteq> CHR ''.''"
  using nat_digits_lt by (auto simp: nat_string_def)

lemma two_digits_run: "r < 100 \<Longrightarrow> digit_run 10 (two_digits r) = [r div 10, r mod 10]"
  by (simp add: two_digits_def)

lemma two_digits_punct: "r < 100 \<Longrightarrow> c \<in> set (two_digits r) \<Longrightarrow> c \<noteq> CHR '','' \<and> c \<noteq> CHR ''.''"
  by (auto simp: two_digits_def)

lemma length_digit_run_nat_string: "length (digit_run 10 (nat_string k)) = length (nat_string k)"
  using digit_run_nat_string [of "[]" k] by (simp add: stops_number_def nat_string_def)

lemma currency_body:
  assumes "r < 100"
  shows "currency_cents (CHR ''$'' # group3 (nat_string k) @ CHR ''.'' # two_digits r) = Some (int (k * 100 + r))"
    and "currency_cents (CHR ''-'' # CHR ''$'' # group3 (nat_string k) @ CHR ''.'' # two_digits r) = Some (- int (k * 100 + r))"
proof -
  have f1: "filter (\<lambda>x. x \<noteq> CHR '','') (group3 (nat_string k)) = nat_string k"
    using filter_group3 nat_string_punct by (simp add: filter_id_conv)
  have f2: "filter (\<lambda>x. x \<noteq> CHR '','') (two_digits r) = two_digits r"
    using two_digits_punct [OF assms] by (simp add: filter_id_conv)
  have tw: "takeWhile (\<lambda>x. x \<noteq> CHR ''.'') (nat_string k @ CHR ''.'' # two_digits r) = nat_string k"
    using nat_string_punct by (simp add: takeWhile_append2)
  have ln: "length (two_digits r) = 2" by (simp add: two_digits_def)
  have dr: "digits_value 10 (digit_run 10 (two_digits r)) = r"
    using assms by (simp add: two_digits_run digits_value_def)
  have dk: "digits_value 10 (digit_run 10 (nat_string k)) = k"
    using digit_run_nat_string [of "[]" k] by (simp add: stops_number_def)
  have ne: "nat_string k \<noteq> []" by (simp add: nat_string_def)
  have len2: "length (digit_run 10 (two_digits r)) = 2" using assms by (simp add: two_digits_run)
  show "currency_cents (CHR ''$'' # group3 (nat_string k) @ CHR ''.'' # two_digits r) = Some (int (k * 100 + r))"
    using f1 f2 tw ln dr dk ne len2 length_digit_run_nat_string [of k]
    by (simp add: currency_cents_def Let_def)
  show "currency_cents (CHR ''-'' # CHR ''$'' # group3 (nat_string k) @ CHR ''.'' # two_digits r) = Some (- int (k * 100 + r))"
    using f1 f2 tw ln dr dk ne len2 length_digit_run_nat_string [of k]
    by (simp add: currency_cents_def Let_def)
qed

lemma currency_cents_format_cents: "currency_cents (format_cents c) = Some c"
proof (cases "c < 0")
  case True
  have "nat \<bar>c\<bar> div 100 * 100 + nat \<bar>c\<bar> mod 100 = nat \<bar>c\<bar>" by simp
  then show ?thesis using True currency_body(2) [of "nat \<bar>c\<bar> mod 100" "nat \<bar>c\<bar> div 100"]
    by (simp add: format_cents_def Let_def)
next
  case False
  then show ?thesis using currency_body(1) [of "nat \<bar>c\<bar> mod 100" "nat \<bar>c\<bar> div 100"]
    by (simp add: format_cents_def Let_def)
qed

text \<open>
  Below \<open>100 \<cdot> 2^46\<close> cents the quotient is below \<open>2^46\<close>, where doubles
  are spaced at most \<open>2^-7\<close> apart, so \<open>amount / 100\<close> is within \<open>2^-8\<close>
  of the exact quotient and the shown cents are the amount.
\<close>

lemma formatCurrency_cents:
  assumes "\<bar>amount\<bar> < 100 * 2 ^ 46"
  shows "formatCurrency amount = format_cents amount"
proof -
  have a53: "\<bar>amount\<bar> < 2 ^ 53" using assms by simp
  let ?q = "(of_int amount :: rat) / 100"
  have q46: "\<bar>?q\<bar> < power_int 2 46"
  proof -
    have "(of_int \<bar>amount\<bar> :: rat) < of_int (100 * 2 ^ 46)" using assms by (simp only: of_int_less_iff)
    then show ?thesis by (simp add: abs_divide)
  qed
  then have "\<bar>?q\<bar> < 2 ^ 1023" by simp
  from to_double_finite [OF this] obtain x where x: "to_double ?q = Some x" by blast
  have near: "\<bar>x * 100 - of_int amount\<bar> < 1 / 2"
  proof (cases "amount = 0")
    case True
    with x show ?thesis by (simp add: to_double_def)
  next
    case False
    then have q0: "?q \<noteq> 0" by simp
    have "double_exp \<bar>?q\<bar> \<le> max (46 - 53) (-1074)"
      using double_exp_le [OF _ q46] q0 by simp
    then have "power_int (2::rat) (double_exp \<bar>?q\<bar>) \<le> power_int 2 (-7)"
      by (intro power_int_increasing) simp_all
    with to_double_err [OF x q0] have e: "\<bar>x - ?q\<bar> \<le> 1 / 256" by simp
    have "x * 100 - of_int amount = 100 * (x - ?q)" by (simp add: algebra_simps)
    then have "\<bar>x * 100 - of_int amount\<bar> = \<bar>100 * (x - ?q)\<bar>" by (rule arg_cong)
    also have "\<dots> = 100 * \<bar>x - ?q\<bar>" by (simp only: abs_mult abs_numeral)
    also have "\<dots> \<le> 100 * (1 / 256)" using e by (intro mult_left_mono) simp_all
    finally show ?thesis by simp
  qed
  have "round_half_expand (x * 100) = amount" by (rule round_half_expand_near [OF near])
  with x to_double_int_exact [OF a53] show ?thesis by (simp add: formatCurrency_def)
qed

lemma formatCurrency_above_limit:
  "formatCurrency 7036874417766401 = format_cents 7036874417766402"
proof -
  have a: "to_double (of_int 7036874417766401) = Some (of_int 7036874417766401)"
    by (rule to_double_int_exact) simp
  have b: "to_double (of_int 7036874417766401 / 100) = Some (4503599627370497 / 64)" by code_simp
  have c: "round_half_expand (4503599627370497 / 64 * 100) = 7036874417766402" by code_simp
  show ?thesis unfolding formatCurrency_def a option.case b c by (rule refl)
qed

text \<open>
  C23: the dollar text \<open>formatCurrency\<close> shows for an
  amount of cents below \<open>100 \<cdot> 2^46\<close> (about \<open>7.04 \<cdot> 10^15\<close>) reads back
  as exactly that amount; the bound is tight: one cent above it the double
  \<open>amount / 100\<close> is \<open>70368744177664.015625\<close> and the page shows a cent
  more.
\<close>

theorem formatCurrency_roundtrip:
  "(\<bar>amount\<bar> < 100 * 2 ^ 46 \<longrightarrow> currency_cents (formatCurrency amount) = Some amount) \<and>
   currency_cents (formatCurrency (100 * 2 ^ 46 + 1)) = Some (100 * 2 ^ 46 + 2)"
proof
  show "\<bar>amount\<bar> < 100 * 2 ^ 46 \<longrightarrow> currency_cents (formatCurrency amount) = Some amount"
    by (simp add: formatCurrency_cents currency_cents_format_cents)
  have "(100 * 2 ^ 46 + 1 :: int) = 7036874417766401" and "(100 * 2 ^ 46 + 2 :: int) = 7036874417766402"
    by simp_all
  then show "currency_cents (formatCurrency (100 * 2 ^ 46 + 1)) = Some (100 * 2 ^ 46 + 2)"
    by (simp only: formatCurrency_above_limit currency_cents_format_cents)
qed

theorem formatCurrency_roundtrip_witness:
  "currency_cents (formatCurrency 15000) = Some 15000"
  using formatCurrency_roundtrip [of 15000] by simp

subsection \<open>Cards and deletion\<close>

lemma Invoices_cards:
  "Invoices tz (Some u) False (Some xs) isDeleting = InvCards cs \<Longrightarrow> cs = map (invoice_card_of tz isDeleting) xs"
  by (simp add: Invoices_def split: if_splits)

text \<open>
  C7: on the invoice list every card belongs to a
  listed invoice and its delete button is disabled exactly while some
  deletion is in flight (one flag for all cards); a click on an enabled button
  calls \<open>deleteInvoice\<close> for that invoice at once, with no confirmation step.
\<close>

theorem Invoices_delete_unconfirmed:
  assumes "Invoices tz (Some u) False (Some xs) isDeleting = InvCards cs" and "c \<in> set cs"
  shows "card_key c \<in> inv_id ` set xs \<and> card_delete_disabled c = isDeleting \<and>
         click_delete c = (if isDeleting then [] else [DeleteInvoice (card_key c)])"
proof -
  from Invoices_cards [OF assms(1)] assms(2)
  obtain row where "row \<in> set xs" and "c = invoice_card_of tz isDeleting row"
    by auto
  then show ?thesis by (auto simp: invoice_card_of_def click_delete_def)
qed

lemma Invoices_delete_unconfirmed_witness:
  "click_delete (invoice_card_of 0 False \<lparr>inv_id = ''inv-1'', inv_month = 3, inv_sales_amount = 15000,
       inv_invoice_date = ''2024-03-01'', inv_description = None, inv_created_at = ''2024-03-01T09:30:00Z''\<rparr>)
     = [DeleteInvoice ''inv-1'']"
proof -
  let ?row = "\<lparr>inv_id = ''inv-1'', inv_month = 3, inv_sales_amount = 15000,
       inv_invoice_date = ''2024-03-01'', inv_description = None, inv_created_at = ''2024-03-01T09:30:00Z''\<rparr>"
  have v: "Invoices 0 (Some \<lparr>user_id = ''u1'', email = ''a@example.com''\<rparr>) False (Some [?row]) False =
      InvCards [invoice_card_of 0 False ?row]"
    by (simp add: Invoices_def)
  have "invoice_card_of 0 False ?row \<in> set [invoice_card_of 0 False ?row]" by simp
  from Invoices_delete_unconfirmed [OF v this] show ?thesis by (simp add: invoice_card_of_def)
qed

end
