(* ===== verification/ServiceModel.thy ===== *)
theory ServiceModel
  imports Prelude
begin

text \<open>
  The \<open>Service\<close> type of \<open>useServices\<close>, as the pages construct and read it
  (\<open>src/src/pages/Index.tsx\<close> builds three literal services,
  \<open>src/src/pages/Dashboard.tsx\<close> lists the user's): an identifier, the
  owner's user id, the texts shown on a card, the active flag, timestamps,
  and the optional joined profile of the owner.  The spec's invariant on a
  collection of services (identifiers unique, owners non-empty) is
  \<open>services_wf\<close>.
\<close>

record service_profile =
  company_name :: string
  display_name :: string

record service =
  svc_id :: string
  svc_user_id :: string
  svc_title :: string
  svc_description :: string
  svc_category :: string
  svc_price_range :: string
  svc_location :: string
  svc_is_active :: bool
  svc_created_at :: string
  svc_updated_at :: string
  svc_profiles :: "service_profile option"

definition services_wf :: "service list \<Rightarrow> bool" where
  "services_wf xs \<longleftrightarrow> distinct (map svc_id xs) \<and> list_all (\<lambda>s. svc_user_id s \<noteq> []) xs"

lemma services_wf_without_id:
  "services_wf xs \<Longrightarrow> services_wf (without_id svc_id k xs)"
  using distinct_without_id [of svc_id xs k]
  by (auto simp: services_wf_def list_all_iff without_id_def)

lemma services_wf_snoc:
  "services_wf xs \<Longrightarrow> svc_id s \<notin> svc_id ` set xs \<Longrightarrow> svc_user_id s \<noteq> [] \<Longrightarrow>
   services_wf (xs @ [s])"
  by (auto simp: services_wf_def)

end
