(* ===== verification/Dashboard.thy ===== *)
theory Dashboard
  imports ServiceModel
begin

text \<open>
  The dashboard page, \<open>src/src/pages/Dashboard.tsx\<close>.  Its state is
  \<open>userServices\<close> and \<open>showCreateDialog\<close> (\<open>dashboard_state\<close>); it reads
  \<open>{user, loading}\<close> from \<open>useAuth\<close> and \<open>profile\<close> from \<open>useProfile\<close>.
  Two effects run after rendering: the first navigates to \<open>/login\<close> once
  authentication has settled without a user, the second calls
  \<open>loadUserServices\<close> whenever there is a user.  \<open>loadUserServices\<close> awaits
  \<open>getUserServices()\<close> and stores the result; \<open>handleDeleteService\<close> asks
  \<open>window.confirm\<close>, and on consent awaits \<open>deleteService(id)\<close> and then
  calls \<open>loadUserServices\<close> again.  Each handler is modelled by the calls it
  makes in order (\<open>dash_effect\<close>); a call that \<open>await\<close>s comes before the
  calls that follow it.  The asynchronous system these calls build, with the
  server and the requests in flight, is in \<open>DashboardSync\<close>.
\<close>

section \<open>State, effects, view\<close>

record dashboard_state =
  userServices :: "service list"
  showCreateDialog :: bool

record user_profile =
  prof_display_name :: "string option"

datatype dash_effect =
    NavigateTo route
  | ConfirmPrompt string
  | GetUserServices
  | DeleteServiceCall string

record service_card =
  sc_key :: string
  sc_title :: string
  sc_category :: string
  sc_badge :: string
  sc_badge_variant :: string
  sc_description :: string
  sc_delete_target :: string

datatype dash_view =
    DashLoading
  | DashNothing
  | DashPage string "service_card list" bool bool

section \<open>Operations\<close>

definition dashboard_init :: dashboard_state where
  "dashboard_init = \<lparr>userServices = [], showCreateDialog = False\<rparr>"

text \<open>The two \<open>useEffect\<close> bodies, in their order in the component.\<close>

definition auth_redirect_effect :: "bool \<Rightarrow> session \<Rightarrow> dash_effect list" where
  "auth_redirect_effect authLoading user =
     (if \<not> authLoading \<and> user = None then [NavigateTo ''/login''] else [])"

definition load_effect :: "session \<Rightarrow> dash_effect list" where
  "load_effect user = (if user \<noteq> None then [GetUserServices] else [])"

definition dashboard_effects :: "bool \<Rightarrow> session \<Rightarrow> dash_effect list" where
  "dashboard_effects authLoading user = auth_redirect_effect authLoading user @ load_effect user"

text \<open>The continuation of \<open>loadUserServices\<close> once \<open>getUserServices()\<close> resolves.\<close>

definition setUserServices :: "service list \<Rightarrow> dashboard_state \<Rightarrow> dashboard_state" where
  "setUserServices services st = st\<lparr>userServices := services\<rparr>"

definition delete_prompt :: string where
  "delete_prompt = ''Are you sure you want to delete this service?''"

text \<open>\<open>handleDeleteService(id)\<close>, given the user's answer to \<open>window.confirm\<close>.\<close>

definition handleDeleteService :: "string \<Rightarrow> bool \<Rightarrow> dash_effect list" where
  "handleDeleteService sid confirmed =
     ConfirmPrompt delete_prompt # (if confirmed then [DeleteServiceCall sid, GetUserServices] else [])"

definition setShowCreateDialog :: "bool \<Rightarrow> dashboard_state \<Rightarrow> dashboard_state" where
  "setShowCreateDialog b st = st\<lparr>showCreateDialog := b\<rparr>"

text \<open>\<open>profile?.display_name || user.email\<close>.\<close>

definition welcome_name :: "user_profile option \<Rightarrow> auth_user \<Rightarrow> string" where
  "welcome_name profile u =
     (case profile of
        None \<Rightarrow> email u
      | Some p \<Rightarrow> (case prof_display_name p of None \<Rightarrow> email u | Some d \<Rightarrow> or_default d (email u)))"

definition service_card_of :: "service \<Rightarrow> service_card" where
  "service_card_of s =
     \<lparr>sc_key = svc_id s,
      sc_title = svc_title s,
      sc_category = svc_category s,
      sc_badge = (if svc_is_active s then ''Active'' else ''Inactive''),
      sc_badge_variant = (if svc_is_active s then ''default'' else ''secondary''),
      sc_description = svc_description s,
      sc_delete_target = svc_id s\<rparr>"

text \<open>
  The render: a loading text while authentication loads, nothing without a
  user, otherwise the welcome line, one card per service, the empty-state card
  when there is none, and the create dialog with its \<open>open\<close> flag.
\<close>

definition Dashboard :: "bool \<Rightarrow> session \<Rightarrow> user_profile option \<Rightarrow> dashboard_state \<Rightarrow> dash_view" where
  "Dashboard authLoading user profile st =
     (if authLoading then DashLoading
      else case user of
             None \<Rightarrow> DashNothing
           | Some u \<Rightarrow> DashPage (''Welcome back, '' @ welcome_name profile u)
                         (map service_card_of (userServices st))
                         (length (userServices st) = 0)
                         (showCreateDialog st))"

end
