(* ===== verification/DashboardSync.thy ===== *)
theory DashboardSync
  imports Dashboard
begin

text \<open>
  The dashboard together with the service store it talks to, as an
  asynchronous system.  The state holds the user's services on the server,
  the page state, and the requests in flight.  A request is issued by a
  handler up to its first \<open>await\<close> (\<open>first_request\<close>), is processed by the
  server at some later moment, and its answer reaches the page at some moment
  after that; answers may arrive in any order, and nothing cancels or orders
  them, as in the code.  The step relation \<open>dash_step\<close> has one rule per
  event: the load effect runs, a delete click with the user's answer to
  \<open>window.confirm\<close>, the server answering a load or performing a deletion
  (whose resolution makes \<open>handleDeleteService\<close> call \<open>loadUserServices\<close>),
  a failing request (the rejection propagates, nothing is stored), an answer
  delivered to \<open>setUserServices\<close>, a service created through
  \<open>CreateServiceDialog\<close> (whose \<open>onSuccess\<close> is \<open>loadUserServices\<close>), and
  the dialog opened or closed.  The last two need a signed-in user: the
  "Add Service" button and the dialog are rendered only below the
  \<open>!user\<close> early return.  Two ghost fields serve the proofs: the number
  of server mutations so far (\<open>version\<close>, also carried by each answer and by
  the list shown) and the set of services the server ever held (\<open>ever\<close>).
\<close>

section \<open>The asynchronous system\<close>

datatype dash_req =
    LoadPending
  | LoadAnswered nat "service list"
  | DeletePending string

record dash_sys =
  server :: "service list"
  version :: nat
  ever :: "service set"
  page :: dashboard_state
  shown :: "nat option"
  inflight :: "dash_req list"

datatype dash_event =
    EvEffects
  | EvClickDelete string bool
  | EvServerLoad nat
  | EvServerDelete nat
  | EvDeleteFails nat
  | EvLoadFails nat
  | EvDeliver nat
  | EvCreated service
  | EvDialog bool

text \<open>The request a handler has sent when it reaches its first \<open>await\<close>.\<close>

fun first_request :: "dash_effect list \<Rightarrow> dash_req list" where
  "first_request [] = []"
| "first_request (GetUserServices # es) = [LoadPending]"
| "first_request (DeleteServiceCall sid # es) = [DeletePending sid]"
| "first_request (NavigateTo r # es) = first_request es"
| "first_request (ConfirmPrompt m # es) = first_request es"

definition remove_nth :: "nat \<Rightarrow> 'a list \<Rightarrow> 'a list" where
  "remove_nth i xs = take i xs @ drop (Suc i) xs"

definition dash_init :: "service list \<Rightarrow> dash_sys" where
  "dash_init srv =
     \<lparr>server = srv, version = 0, ever = set srv, page = dashboard_init, shown = None, inflight = []\<rparr>"

inductive dash_step :: "session \<Rightarrow> dash_sys \<Rightarrow> dash_event \<Rightarrow> dash_sys \<Rightarrow> bool" where
  effects:
    "dash_step user s EvEffects (s\<lparr>inflight := inflight s @ first_request (load_effect user)\<rparr>)"
| click_delete:
    "sid \<in> svc_id ` set (userServices (page s)) \<Longrightarrow>
     dash_step user s (EvClickDelete sid ok)
       (s\<lparr>inflight := inflight s @ first_request (handleDeleteService sid ok)\<rparr>)"
| server_load:
    "i < length (inflight s) \<Longrightarrow> inflight s ! i = LoadPending \<Longrightarrow>
     dash_step user s (EvServerLoad i)
       (s\<lparr>inflight := (inflight s)[i := LoadAnswered (version s) (server s)]\<rparr>)"
| server_delete:
    "i < length (inflight s) \<Longrightarrow> inflight s ! i = DeletePending sid \<Longrightarrow>
     dash_step user s (EvServerDelete i)
       (s\<lparr>server := without_id svc_id sid (server s), version := Suc (version s),
          inflight := (inflight s)[i := LoadPending]\<rparr>)"
| delete_fails:
    "i < length (inflight s) \<Longrightarrow> inflight s ! i = DeletePending sid \<Longrightarrow>
     dash_step user s (EvDeleteFails i) (s\<lparr>inflight := remove_nth i (inflight s)\<rparr>)"
| load_fails:
    "i < length (inflight s) \<Longrightarrow> inflight s ! i = LoadPending \<Longrightarrow>
     dash_step user s (EvLoadFails i) (s\<lparr>inflight := remove_nth i (inflight s)\<rparr>)"
| deliver:
    "i < length (inflight s) \<Longrightarrow> inflight s ! i = LoadAnswered v xs \<Longrightarrow>
     dash_step user s (EvDeliver i)
       (s\<lparr>page := setUserServices xs (page s), shown := Some v,
          inflight := remove_nth i (inflight s)\<rparr>)"
| created:
    "user \<noteq> None \<Longrightarrow> svc_id x \<notin> svc_id ` set (server s) \<Longrightarrow> svc_user_id x \<noteq> [] \<Longrightarrow>
     dash_step user s (EvCreated x)
       (s\<lparr>server := server s @ [x], version := Suc (version s), ever := insert x (ever s),
          inflight := inflight s @ [LoadPending]\<rparr>)"
| dialog:
    "user \<noteq> None \<Longrightarrow> dash_step user s (EvDialog b) (s\<lparr>page := setShowCreateDialog b (page s)\<rparr>)"

inductive dash_reach :: "session \<Rightarrow> dash_sys \<Rightarrow> bool" where
  init: "services_wf srv \<Longrightarrow> dash_reach user (dash_init srv)"
| step: "dash_reach user s \<Longrightarrow> dash_step user s e t \<Longrightarrow> dash_reach user t"

text \<open>Runs of labelled steps, for the scenarios.\<close>

inductive dash_run :: "session \<Rightarrow> dash_sys \<Rightarrow> dash_event list \<Rightarrow> dash_sys \<Rightarrow> bool" where
  nil: "dash_run user s [] s"
| cons: "dash_step user s e t \<Longrightarrow> dash_run user t es u \<Longrightarrow> dash_run user s (e # es) u"

text \<open>
  The same steps as a function: \<open>None\<close> when the event is not enabled.  The
  relation is the graph of this function (\<open>dash_exec_iff\<close>), so runs of
  concrete events are computed by evaluation.
\<close>

fun dash_exec :: "session \<Rightarrow> dash_sys \<Rightarrow> dash_event \<Rightarrow> dash_sys option" where
  "dash_exec user s EvEffects = Some (s\<lparr>inflight := inflight s @ first_request (load_effect user)\<rparr>)"
| "dash_exec user s (EvClickDelete sid ok) =
     (if sid \<in> svc_id ` set (userServices (page s))
      then Some (s\<lparr>inflight := inflight s @ first_request (handleDeleteService sid ok)\<rparr>) else None)"
| "dash_exec user s (EvServerLoad i) =
     (if i < length (inflight s) \<and> inflight s ! i = LoadPending
      then Some (s\<lparr>inflight := (inflight s)[i := LoadAnswered (version s) (server s)]\<rparr>) else None)"
| "dash_exec user s (EvServerDelete i) =
     (if i < length (inflight s)
      then (case inflight s ! i of
              DeletePending sid \<Rightarrow>
                Some (s\<lparr>server := without_id svc_id sid (server s), version := Suc (version s),
                        inflight := (inflight s)[i := LoadPending]\<rparr>)
            | _ \<Rightarrow> None)
      else None)"
| "dash_exec user s (EvDeleteFails i) =
     (if i < length (inflight s)
      then (case inflight s ! i of
              DeletePending sid \<Rightarrow> Some (s\<lparr>inflight := remove_nth i (inflight s)\<rparr>)
            | _ \<Rightarrow> None)
      else None)"
| "dash_exec user s (EvLoadFails i) =
     (if i < length (inflight s) \<and> inflight s ! i = LoadPending
      then Some (s\<lparr>inflight := remove_nth i (inflight s)\<rparr>) else None)"
| "dash_exec user s (EvDeliver i) =
     (if i < length (inflight s)
      then (case inflight s ! i of
              LoadAnswered v xs \<Rightarrow>
                Some (s\<lparr>page := setUserServices xs (page s), shown := Some v,
                        inflight := remove_nth i (inflight s)\<rparr>)
            | _ \<Rightarrow> None)
      else None)"
| "dash_exec user s (EvCreated x) =
     (if user \<noteq> None \<and> svc_id x \<notin> svc_id ` set (server s) \<and> svc_user_id x \<noteq> []
      then Some (s\<lparr>server := server s @ [x], version := Suc (version s), ever := insert x (ever s),
                   inflight := inflight s @ [LoadPending]\<rparr>)
      else None)"
| "dash_exec user s (EvDialog b) =
     (if user \<noteq> None then Some (s\<lparr>page := setShowCreateDialog b (page s)\<rparr>) else None)"

fun dash_exec_run :: "session \<Rightarrow> dash_sys \<Rightarrow> dash_event list \<Rightarrow> dash_sys option" where
  "dash_exec_run user s [] = Some s"
| "dash_exec_run user s (e # es) =
     (case dash_exec user s e of None \<Rightarrow> None | Some t \<Rightarrow> dash_exec_run user t es)"

text \<open>A service owned by \<open>u1\<close>, for the scenarios.\<close>

definition sample_service :: "string \<Rightarrow> service" where
  "sample_service sid =
     \<lparr>svc_id = sid, svc_user_id = ''u1'', svc_title = ''Service '' @ sid, svc_description = [],
      svc_category = ''Consulting'', svc_price_range = ''$100'', svc_location = ''Remote'',
      svc_is_active = True, svc_created_at = [], svc_updated_at = [], svc_profiles = None\<rparr>"

text \<open>
  The state after the page has mounted with a user and its first load has
  been answered and delivered; and the run of the race scenario: a second
  load is issued by the create dialog's \<open>onSuccess\<close>, answered, and overtaken
  by the reload that follows a confirmed deletion.
\<close>

definition dash_loaded :: "service list \<Rightarrow> dash_sys" where
  "dash_loaded srv = (dash_init srv)\<lparr>page := \<lparr>userServices = srv, showCreateDialog = False\<rparr>, shown := Some 0\<rparr>"

definition stale_run :: "dash_event list" where
  "stale_run = [EvEffects, EvServerLoad 0, EvDeliver 0, EvCreated (sample_service ''s3''),
                EvServerLoad 0, EvClickDelete ''s1'' True, EvServerDelete 1, EvServerLoad 1,
                EvDeliver 1, EvDeliver 0]"

text \<open>A reload: the load effect fires, the server answers, the answer is delivered.\<close>

definition reload_events :: "dash_event list" where
  "reload_events = [EvEffects, EvServerLoad 0, EvDeliver 0]"

section \<open>Invariant\<close>

definition answer_ok :: "dash_sys \<Rightarrow> dash_req \<Rightarrow> bool" where
  "answer_ok s r =
     (case r of
        LoadAnswered v xs \<Rightarrow>
          v \<le> version s \<and> (v = version s \<longrightarrow> xs = server s) \<and> set xs \<subseteq> ever s \<and>
          distinct (map svc_id xs)
      | _ \<Rightarrow> True)"

definition shown_ok :: "dash_sys \<Rightarrow> bool" where
  "shown_ok s =
     (case shown s of
        None \<Rightarrow> userServices (page s) = []
      | Some v \<Rightarrow> v \<le> version s \<and> (v = version s \<longrightarrow> userServices (page s) = server s))"

definition dash_inv :: "dash_sys \<Rightarrow> bool" where
  "dash_inv s \<longleftrightarrow>
     services_wf (server s) \<and> set (server s) \<subseteq> ever s \<and>
     (\<forall>r \<in> set (inflight s). answer_ok s r) \<and> shown_ok s \<and>
     set (userServices (page s)) \<subseteq> ever s \<and> distinct (map svc_id (userServices (page s)))"

section \<open>Properties\<close>

subsection \<open>The invariant holds in every reachable state\<close>

lemma all_set_update: "\<forall>r \<in> set xs. P r \<Longrightarrow> P a \<Longrightarrow> \<forall>r \<in> set (xs[i := a]). P r"
  by (metis insert_iff set_update_subset_insert subsetD)

lemma all_set_remove_nth: "\<forall>r \<in> set xs. P r \<Longrightarrow> \<forall>r \<in> set (remove_nth i xs). P r"
  by (auto simp: remove_nth_def dest: in_set_takeD in_set_dropD)

lemma answer_ok_same:
  "version t = version s \<Longrightarrow> server t = server s \<Longrightarrow> ever t = ever s \<Longrightarrow> answer_ok t = answer_ok s"
  by (simp add: answer_ok_def fun_eq_iff split: dash_req.split)

lemma shown_ok_same:
  "shown t = shown s \<Longrightarrow> userServices (page t) = userServices (page s) \<Longrightarrow> version t = version s \<Longrightarrow>
   server t = server s \<Longrightarrow> shown_ok t = shown_ok s"
  by (simp add: shown_ok_def split: option.split)

lemma answer_ok_requests [simp]:
  "answer_ok s LoadPending" "answer_ok s (DeletePending sid)"
  by (simp_all add: answer_ok_def)

lemma answer_ok_bump:
  "answer_ok s r \<Longrightarrow> version t = Suc (version s) \<Longrightarrow> ever s \<subseteq> ever t \<Longrightarrow> answer_ok t r"
  by (auto simp: answer_ok_def split: dash_req.splits)

lemma first_request_loads: "r \<in> set (first_request es) \<Longrightarrow> r = LoadPending \<or> (\<exists>sid. r = DeletePending sid)"
  by (induction es rule: first_request.induct) auto

lemma dash_inv_init: "services_wf srv \<Longrightarrow> dash_inv (dash_init srv)"
  by (simp add: dash_inv_def dash_init_def dashboard_init_def shown_ok_def)

lemma dash_inv_requests:
  assumes "dash_inv s" and "\<forall>r \<in> set rs. r = LoadPending \<or> (\<exists>sid. r = DeletePending sid)"
  shows "dash_inv (s\<lparr>inflight := inflight s @ rs\<rparr>)"
proof -
  have "answer_ok (s\<lparr>inflight := inflight s @ rs\<rparr>) = answer_ok s" by (rule answer_ok_same) simp_all
  moreover have "shown_ok (s\<lparr>inflight := inflight s @ rs\<rparr>) = shown_ok s" by (rule shown_ok_same) simp_all
  moreover have "\<forall>r \<in> set rs. answer_ok s r"
    using assms(2) by auto
  ultimately show ?thesis using assms(1) by (simp add: dash_inv_def ball_Un)
qed

lemma dash_inv_server_load:
  assumes "dash_inv s"
  shows "dash_inv (s\<lparr>inflight := (inflight s)[i := LoadAnswered (version s) (server s)]\<rparr>)"
    (is "dash_inv ?t")
proof -
  have same: "answer_ok ?t = answer_ok s" by (rule answer_ok_same) simp_all
  have sh: "shown_ok ?t = shown_ok s" by (rule shown_ok_same) simp_all
  have new: "answer_ok s (LoadAnswered (version s) (server s))"
    using assms by (simp add: answer_ok_def dash_inv_def services_wf_def)
  from assms have "\<forall>r \<in> set (inflight s). answer_ok s r" by (simp add: dash_inv_def)
  from all_set_update [OF this new, of i] have "\<forall>r \<in> set (inflight ?t). answer_ok ?t r"
    using same by simp
  with assms sh show ?thesis unfolding dash_inv_def by simp
qed

lemma dash_inv_remove:
  assumes "dash_inv s"
  shows "dash_inv (s\<lparr>inflight := remove_nth i (inflight s)\<rparr>)" (is "dash_inv ?t")
proof -
  have same: "answer_ok ?t = answer_ok s" by (rule answer_ok_same) simp_all
  have sh: "shown_ok ?t = shown_ok s" by (rule shown_ok_same) simp_all
  from assms have "\<forall>r \<in> set (inflight s). answer_ok s r" by (simp add: dash_inv_def)
  from all_set_remove_nth [OF this, of i] have "\<forall>r \<in> set (inflight ?t). answer_ok ?t r"
    using same by simp
  with assms sh show ?thesis unfolding dash_inv_def by simp
qed

lemma dash_inv_server_delete:
  assumes "dash_inv s"
  shows "dash_inv (s\<lparr>server := without_id svc_id sid (server s), version := Suc (version s),
          inflight := (inflight s)[i := LoadPending]\<rparr>)" (is "dash_inv ?t")
proof -
  from assms have "\<forall>r \<in> set (inflight s). answer_ok s r" by (simp add: dash_inv_def)
  then have "\<forall>r \<in> set (inflight s). answer_ok ?t r" by (auto intro: answer_ok_bump)
  from all_set_update [OF this, of LoadPending i]
  have a: "\<forall>r \<in> set (inflight ?t). answer_ok ?t r" by simp
  have w: "services_wf (server ?t)" using assms by (simp add: dash_inv_def services_wf_without_id)
  have e: "set (server ?t) \<subseteq> ever ?t"
    using assms without_id_subset [of svc_id sid "server s"] by (auto simp: dash_inv_def)
  have sh: "shown_ok ?t"
    using assms by (auto simp: dash_inv_def shown_ok_def split: option.splits)
  from assms a w e sh show ?thesis unfolding dash_inv_def by simp
qed

lemma dash_inv_deliver:
  assumes "dash_inv s" and "i < length (inflight s)" and "inflight s ! i = LoadAnswered v xs"
  shows "dash_inv (s\<lparr>page := setUserServices xs (page s), shown := Some v,
           inflight := remove_nth i (inflight s)\<rparr>)" (is "dash_inv ?t")
proof -
  have same: "answer_ok ?t = answer_ok s" by (rule answer_ok_same) simp_all
  from assms(1) have all: "\<forall>r \<in> set (inflight s). answer_ok s r" by (simp add: dash_inv_def)
  then have "answer_ok s (LoadAnswered v xs)" using assms(2,3) nth_mem by metis
  then have ans: "v \<le> version s" "v = version s \<longrightarrow> xs = server s" "set xs \<subseteq> ever s"
      "distinct (map svc_id xs)"
    by (simp_all add: answer_ok_def)
  from all_set_remove_nth [OF all, of i] have a: "\<forall>r \<in> set (inflight ?t). answer_ok ?t r"
    using same by simp
  have sh: "shown_ok ?t" using ans by (simp add: shown_ok_def setUserServices_def)
  from assms(1) a sh ans show ?thesis unfolding dash_inv_def by (simp add: setUserServices_def)
qed

lemma dash_inv_created:
  assumes "dash_inv s" and "svc_id x \<notin> svc_id ` set (server s)" and "svc_user_id x \<noteq> []"
  shows "dash_inv (s\<lparr>server := server s @ [x], version := Suc (version s), ever := insert x (ever s),
          inflight := inflight s @ [LoadPending]\<rparr>)" (is "dash_inv ?t")
proof -
  from assms(1) have "\<forall>r \<in> set (inflight s). answer_ok s r" by (simp add: dash_inv_def)
  then have "\<forall>r \<in> set (inflight s). answer_ok ?t r" by (auto intro: answer_ok_bump)
  then have a: "\<forall>r \<in> set (inflight ?t). answer_ok ?t r" by simp
  have w: "services_wf (server ?t)" using assms by (simp add: dash_inv_def services_wf_snoc)
  have sh: "shown_ok ?t"
    using assms(1) by (auto simp: dash_inv_def shown_ok_def split: option.splits)
  from assms(1) a w sh show ?thesis unfolding dash_inv_def by auto
qed

lemma dash_inv_dialog:
  assumes "dash_inv s"
  shows "dash_inv (s\<lparr>page := setShowCreateDialog b (page s)\<rparr>)" (is "dash_inv ?t")
proof -
  have same: "answer_ok ?t = answer_ok s" by (rule answer_ok_same) simp_all
  have sh: "shown_ok ?t = shown_ok s" by (rule shown_ok_same) (simp_all add: setShowCreateDialog_def)
  from assms same sh show ?thesis unfolding dash_inv_def by (simp add: setShowCreateDialog_def)
qed

lemma dash_step_inv:
  assumes "dash_step user s e t" and "dash_inv s"
  shows "dash_inv t"
  using assms
proof (induction rule: dash_step.induct)
  case (effects user s)
  then show ?case by (rule dash_inv_requests) (auto dest: first_request_loads)
next
  case (click_delete sid s user ok)
  from click_delete.prems show ?case by (rule dash_inv_requests) (auto dest: first_request_loads)
next
  case (server_load i s user)
  from server_load.prems show ?case by (rule dash_inv_server_load)
next
  case (server_delete i s sid user)
  from server_delete.prems show ?case by (rule dash_inv_server_delete)
next
  case (delete_fails i s sid user)
  from delete_fails.prems show ?case by (rule dash_inv_remove)
next
  case (load_fails i s user)
  from load_fails.prems show ?case by (rule dash_inv_remove)
next
  case (deliver i s v xs user)
  from deliver.prems deliver.hyps show ?case by (rule dash_inv_deliver)
next
  case (created user x s)
  from created.prems created.hyps(2,3) show ?case by (rule dash_inv_created)
next
  case (dialog user s b)
  from dialog.prems show ?case by (rule dash_inv_dialog)
qed

lemma dash_reach_inv: "dash_reach user s \<Longrightarrow> dash_inv s"
  by (induction rule: dash_reach.induct) (auto intro: dash_inv_init dash_step_inv)

subsection \<open>The executable step function\<close>

lemma dash_exec_iff: "dash_exec user s e = Some t \<longleftrightarrow> dash_step user s e t"
proof
  assume "dash_exec user s e = Some t"
  then show "dash_step user s e t"
    by (cases e) (auto intro: dash_step.intros split: if_splits dash_req.splits)
next
  assume "dash_step user s e t"
  then show "dash_exec user s e = Some t"
    by (induction rule: dash_step.induct) auto
qed

lemma dash_exec_run_sound: "dash_exec_run user s es = Some t \<Longrightarrow> dash_run user s es t"
proof (induction es arbitrary: s)
  case Nil
  then show ?case by (auto intro: dash_run.nil)
next
  case (Cons e es)
  then obtain s' where "dash_exec user s e = Some s'" and "dash_exec_run user s' es = Some t"
    by (auto split: option.splits)
  with Cons.IH show ?case by (auto intro: dash_run.cons simp: dash_exec_iff)
qed

lemma dash_run_reach: "dash_run user s es t \<Longrightarrow> dash_reach user s \<Longrightarrow> dash_reach user t"
  by (induction rule: dash_run.induct) (auto intro: dash_reach.step)

lemma dash_exec_run_reach:
  "services_wf srv \<Longrightarrow> dash_exec_run user (dash_init srv) es = Some t \<Longrightarrow> dash_reach user t"
  by (blast intro: dash_run_reach dash_exec_run_sound dash_reach.init)

inductive_cases click_delete_stepE: "dash_step user s (EvClickDelete sid ok) t"

lemma dash_exec_run_append:
  "dash_exec_run user s (xs @ ys) =
     (case dash_exec_run user s xs of None \<Rightarrow> None | Some t \<Rightarrow> dash_exec_run user t ys)"
  by (induction xs arbitrary: s) (auto split: option.split)

lemma dash_reload_run:
  "inflight s = [] \<Longrightarrow> dash_exec_run (Some u) s reload_events =
     Some (s\<lparr>page := setUserServices (server s) (page s), shown := Some (version s)\<rparr>)"
  by (simp add: reload_events_def load_effect_def remove_nth_def)

lemma dash_loaded_run:
  "dash_exec_run (Some u) (dash_init srv) reload_events = Some (dash_loaded srv)"
  by (simp add: dash_reload_run dash_init_def dash_loaded_def dashboard_init_def setUserServices_def)

lemma dash_loaded_reach: "services_wf srv \<Longrightarrow> dash_reach (Some u) (dash_loaded srv)"
  using dash_exec_run_reach dash_loaded_run by blast

lemma sample_services_wf: "services_wf [sample_service ''s1'', sample_service ''s2'']"
  by (simp add: services_wf_def sample_service_def)

lemmas sample_loaded_reach = dash_loaded_reach [OF sample_services_wf]

lemmas sample_eval = dash_loaded_def dash_init_def sample_service_def

text \<open>
  C6: whenever the list on the page is the answer to a load
  issued after the last change on the server, it is exactly the server's list
  (\<open>loadUserServices\<close> stores what \<open>getUserServices\<close> returned, unaltered).
\<close>

theorem dash_consistent:
  "dash_reach user s \<Longrightarrow> shown s = Some (version s) \<Longrightarrow> userServices (page s) = server s"
  by (drule dash_reach_inv) (simp add: dash_inv_def shown_ok_def)

theorem dash_consistent_witness:
  "userServices (page (dash_loaded [sample_service ''s1'', sample_service ''s2''])) =
   server (dash_loaded [sample_service ''s1'', sample_service ''s2''])"
  using dash_consistent [OF sample_loaded_reach] by (simp add: sample_eval)

text \<open>
  C2: the dashboard can settle, with no request in
  flight, on a list that still shows a service the user confirmed to delete
  and the server deleted: a reload issued before the deletion (by the create
  dialog's \<open>onSuccess\<close>) is answered first and delivered last, and
  \<open>loadUserServices\<close> stores whatever answer resolves last.
\<close>

theorem dash_stale_after_delete:
  "\<exists>t. dash_reach (Some \<lparr>user_id = ''u1'', email = ''a@example.com''\<rparr>) t \<and> inflight t = [] \<and>
       sample_service ''s1'' \<in> set (userServices (page t)) \<and> sample_service ''s1'' \<notin> set (server t)"
proof -
  obtain t where r: "dash_exec_run (Some \<lparr>user_id = ''u1'', email = ''a@example.com''\<rparr>)
      (dash_init [sample_service ''s1'', sample_service ''s2'']) stale_run = Some t"
    and p: "inflight t = [] \<and> sample_service ''s1'' \<in> set (userServices (page t)) \<and>
            sample_service ''s1'' \<notin> set (server t)"
  proof -
    have "case dash_exec_run (Some \<lparr>user_id = ''u1'', email = ''a@example.com''\<rparr>)
            (dash_init [sample_service ''s1'', sample_service ''s2'']) stale_run of
       None \<Rightarrow> False
     | Some t \<Rightarrow> inflight t = [] \<and> sample_service ''s1'' \<in> set (userServices (page t)) \<and>
                 sample_service ''s1'' \<notin> set (server t)"
      by (simp add: stale_run_def dash_init_def dashboard_init_def sample_service_def load_effect_def
          handleDeleteService_def remove_nth_def setUserServices_def without_id_def)
    then show ?thesis using that by (auto split: option.splits)
  qed
  from dash_exec_run_reach [OF sample_services_wf r] p show ?thesis by blast
qed

text \<open>
  C8: without concurrent requests, a confirmed delete
  of a listed service sends \<open>deleteService(id)\<close>, then \<open>getUserServices()\<close>,
  and leaves the page showing the server's list without that service.
\<close>

theorem dash_delete_sequential:
  assumes "inflight s = []" and "sid \<in> svc_id ` set (userServices (page s))"
  shows "dash_exec_run user s [EvClickDelete sid True, EvServerDelete 0, EvServerLoad 0, EvDeliver 0] =
    Some (s\<lparr>server := without_id svc_id sid (server s), version := Suc (version s),
            page := (page s)\<lparr>userServices := without_id svc_id sid (server s)\<rparr>,
            shown := Some (Suc (version s)), inflight := []\<rparr>)"
  using assms by (simp add: handleDeleteService_def remove_nth_def setUserServices_def)

theorem dash_delete_sequential_witness:
  "map_option (\<lambda>t. userServices (page t))
     (dash_exec_run (Some \<lparr>user_id = ''u1'', email = ''a@example.com''\<rparr>)
        (dash_loaded [sample_service ''s1'', sample_service ''s2''])
        [EvClickDelete ''s1'' True, EvServerDelete 0, EvServerLoad 0, EvDeliver 0]) =
   Some [sample_service ''s2'']"
proof -
  have "''s1'' \<in> svc_id ` set (userServices (page (dash_loaded [sample_service ''s1'', sample_service ''s2''])))"
    by (simp add: sample_eval)
  from dash_delete_sequential [OF _ this] show ?thesis
    by (simp add: sample_eval without_id_def)
qed

text \<open>
  C17: in every reachable state the cards rendered by the
  dashboard have pairwise distinct React keys (\<open>key={service.id}\<close>).
\<close>

theorem dash_keys_distinct:
  assumes "dash_reach user s" and "Dashboard False (Some u) p (page s) = DashPage w cs e d"
  shows "distinct (map sc_key cs)"
proof -
  have "distinct (map svc_id (userServices (page s)))"
    using dash_reach_inv [OF assms(1)] by (simp add: dash_inv_def)
  moreover have "cs = map service_card_of (userServices (page s))"
    using assms(2) by (simp add: Dashboard_def)
  ultimately show ?thesis by (simp add: service_card_of_def comp_def)
qed

theorem dash_keys_distinct_witness:
  "distinct (map sc_key (map service_card_of [sample_service ''s1'', sample_service ''s2'']))"
proof -
  let ?a = "\<lparr>user_id = ''u1'', email = ''a@example.com''\<rparr>"
  have "Dashboard False (Some ?a) None (page (dash_loaded [sample_service ''s1'', sample_service ''s2''])) =
        DashPage (''Welcome back, '' @ welcome_name None ?a)
          (map service_card_of [sample_service ''s1'', sample_service ''s2'']) False False"
    by (simp add: Dashboard_def sample_eval)
  from dash_keys_distinct [OF sample_loaded_reach this] show ?thesis .
qed

text \<open>
  C18: every service the page lists was held by the
  server at some point: the page shows only what loads returned.
\<close>

theorem dash_never_invents:
  "dash_reach user s \<Longrightarrow> set (userServices (page s)) \<subseteq> ever s"
  by (drule dash_reach_inv) (simp add: dash_inv_def)

theorem dash_never_invents_witness:
  "set (userServices (page (dash_loaded [sample_service ''s1'', sample_service ''s2'']))) \<subseteq>
   {sample_service ''s1'', sample_service ''s2''}"
  using dash_never_invents [OF sample_loaded_reach] by (simp add: sample_eval)

text \<open>
  C10: answering "Cancel" to the confirmation dialog of
  \<open>handleDeleteService\<close> sends no request and changes nothing.
\<close>

theorem dash_decline_noop: "dash_step user s (EvClickDelete sid False) t \<Longrightarrow> t = s"
  by (erule click_delete_stepE) (simp add: handleDeleteService_def)

theorem dash_decline_noop_witness:
  "dash_exec (Some \<lparr>user_id = ''u1'', email = ''a@example.com''\<rparr>)
     (dash_loaded [sample_service ''s1'', sample_service ''s2'']) (EvClickDelete ''s1'' False) =
   Some (dash_loaded [sample_service ''s1'', sample_service ''s2''])"
proof -
  let ?s = "dash_loaded [sample_service ''s1'', sample_service ''s2'']"
  obtain t where t: "dash_exec (Some \<lparr>user_id = ''u1'', email = ''a@example.com''\<rparr>) ?s
      (EvClickDelete ''s1'' False) = Some t"
    by (simp add: sample_eval)
  then have "dash_step (Some \<lparr>user_id = ''u1'', email = ''a@example.com''\<rparr>) ?s
      (EvClickDelete ''s1'' False) t"
    by (simp only: dash_exec_iff)
  from dash_decline_noop [OF this] t show ?thesis by simp
qed

lemma dash_exec_run_iff: "dash_exec_run user s es = Some t \<longleftrightarrow> dash_run user s es t"
proof
  show "dash_exec_run user s es = Some t \<Longrightarrow> dash_run user s es t" by (rule dash_exec_run_sound)
next
  show "dash_run user s es t \<Longrightarrow> dash_exec_run user s es = Some t"
    by (induction rule: dash_run.induct) (simp_all add: dash_exec_iff [symmetric])
qed

text \<open>
  C11: as soon as a signed-in user's dashboard has
  mounted, and while its first \<open>getUserServices()\<close> is still in flight, it
  renders the empty-state card although the server holds services: the page
  keeps no loading flag for the list.
\<close>

theorem dash_empty_while_loading:
  assumes "services_wf srv" and "srv \<noteq> []"
  shows "\<exists>t. dash_reach (Some u) t \<and> server t = srv \<and> inflight t = [LoadPending] \<and>
             Dashboard False (Some u) p (page t) = DashPage (''Welcome back, '' @ welcome_name p u) [] True False"
proof -
  have r: "dash_exec_run (Some u) (dash_init srv) [EvEffects] =
           Some ((dash_init srv)\<lparr>inflight := [LoadPending]\<rparr>)"
    by (simp add: dash_init_def load_effect_def)
  from dash_exec_run_reach [OF assms(1) r] show ?thesis
    by (intro exI [of _ "(dash_init srv)\<lparr>inflight := [LoadPending]\<rparr>"])
       (simp add: dash_init_def dashboard_init_def Dashboard_def)
qed

theorem dash_empty_while_loading_witness:
  "\<exists>t. dash_reach (Some \<lparr>user_id = ''u1'', email = ''a@example.com''\<rparr>) t \<and>
       server t = [sample_service ''s1'', sample_service ''s2''] \<and> inflight t = [LoadPending] \<and>
       Dashboard False (Some \<lparr>user_id = ''u1'', email = ''a@example.com''\<rparr>) None (page t) =
         DashPage ''Welcome back, a@example.com'' [] True False"
  using dash_empty_while_loading [OF sample_services_wf, of "\<lparr>user_id = ''u1'', email = ''a@example.com''\<rparr>" None]
  by (simp add: welcome_name_def)

text \<open>
  C21: from a quiet state, a reload shows the server's
  list, and a second reload with no mutation in between leaves the state
  exactly as the first one left it.
\<close>

theorem dash_reload_idempotent:
  assumes "inflight s = []"
  shows "dash_exec_run (Some u) s (reload_events @ reload_events) = dash_exec_run (Some u) s reload_events \<and>
         map_option (\<lambda>t. userServices (page t)) (dash_exec_run (Some u) s reload_events) = Some (server s)"
  using assms by (simp add: dash_exec_run_append dash_reload_run setUserServices_def)

theorem dash_reload_idempotent_witness:
  "dash_exec_run (Some \<lparr>user_id = ''u1'', email = ''a@example.com''\<rparr>)
     (dash_loaded [sample_service ''s1'']) (reload_events @ reload_events) =
   dash_exec_run (Some \<lparr>user_id = ''u1'', email = ''a@example.com''\<rparr>)
     (dash_loaded [sample_service ''s1'']) reload_events \<and>
   map_option (\<lambda>t. userServices (page t))
     (dash_exec_run (Some \<lparr>user_id = ''u1'', email = ''a@example.com''\<rparr>)
       (dash_loaded [sample_service ''s1'']) reload_events) = Some [sample_service ''s1'']"
  using dash_reload_idempotent [of "dash_loaded [sample_service ''s1'']"] by (simp add: sample_eval)

text \<open>
  C16: without a signed-in user the dashboard never
  sends a request and never lists a service or opens the create dialog,
  whatever happens: the load effect needs a user, and the page renders
  nothing from which the dialog or a deletion could start.
\<close>

theorem dash_no_user_no_calls:
  "dash_reach None s \<Longrightarrow> inflight s = [] \<and> userServices (page s) = [] \<and> \<not> showCreateDialog (page s)"
proof (induction "None :: session" s rule: dash_reach.induct)
  case (init srv)
  then show ?case by (simp add: dash_init_def dashboard_init_def)
next
  case (step s e t)
  from step.hyps(3) step.hyps(2) show ?case
    by (cases rule: dash_step.cases) (auto simp: load_effect_def)
qed

theorem dash_no_user_no_calls_witness:
  "inflight (dash_loaded [sample_service ''s1'', sample_service ''s2''] \<lparr>page := dashboard_init, shown := None\<rparr>) = []"
proof -
  have r: "dash_exec_run None (dash_init [sample_service ''s1'', sample_service ''s2'']) [EvEffects] =
      Some (dash_init [sample_service ''s1'', sample_service ''s2''])"
    by (simp add: load_effect_def)
  have "dash_reach None (dash_init [sample_service ''s1'', sample_service ''s2''])"
    using dash_exec_run_reach [OF sample_services_wf r] .
  from dash_no_user_no_calls [OF this] show ?thesis by (simp add: dash_loaded_def)
qed

end
