(* ===== verification/Catalogue.thy ===== *)
theory Catalogue
  imports ServiceModel
begin

text \<open>
  The landing page, \<open>src/src/pages/Index.tsx\<close>: three literal featured
  services (\<open>featuredServices\<close>, whose timestamps are the render time
  \<open>new Date().toISOString()\<close>, here the parameter \<open>now\<close>), the category
  list, and the render: one badge per category keyed by its name and one
  \<open>ServiceCard\<close> per featured service keyed by its id.  The lemmas show that
  the literal data satisfies the service invariant and that React's keys are
  unique in both lists.
\<close>

section \<open>Data and render\<close>

definition featuredServices :: "string \<Rightarrow> service list" where
  "featuredServices now =
     [\<lparr>svc_id = ''1'', svc_user_id = ''mock'', svc_title = ''Digital Marketing Strategy'',
       svc_description = ''Comprehensive digital marketing strategies to boost your online presence and drive conversions.'',
       svc_category = ''Marketing'', svc_price_range = ''$2,500'', svc_location = ''New York, NY'',
       svc_is_active = True, svc_created_at = now, svc_updated_at = now,
       svc_profiles = Some \<lparr>company_name = ''MarketPro Solutions'', display_name = ''Marketing Expert''\<rparr>\<rparr>,
      \<lparr>svc_id = ''2'', svc_user_id = ''mock'', svc_title = ''Web Development & Design'',
       svc_description = ''Custom web applications and responsive designs that engage users and drive business growth.'',
       svc_category = ''Development'', svc_price_range = ''$5,000'', svc_location = ''San Francisco, CA'',
       svc_is_active = True, svc_created_at = now, svc_updated_at = now,
       svc_profiles = Some \<lparr>company_name = ''TechCraft Studios'', display_name = ''Dev Team''\<rparr>\<rparr>,
      \<lparr>svc_id = ''3'', svc_user_id = ''mock'', svc_title = ''Financial Consulting'',
       svc_description = ''Expert financial advisory services to optimize your business finances and investment strategies.'',
       svc_category = ''Finance'', svc_price_range = ''$1,200'', svc_location = ''Chicago, IL'',
       svc_is_active = True, svc_created_at = now, svc_updated_at = now,
       svc_profiles = Some \<lparr>company_name = ''FinanceWise Inc'', display_name = ''Finance Advisor''\<rparr>\<rparr>]"

definition categories :: "string list" where
  "categories = [''Marketing'', ''Development'', ''Design'', ''Finance'', ''Consulting'', ''Legal'', ''HR'', ''Sales'']"

text \<open>
  The rendered page: the category badges as (key, label) pairs and the
  featured cards as (key, service) pairs, in order.
\<close>

record index_view =
  category_badges :: "(string \<times> string) list"
  featured_cards :: "(string \<times> service) list"

definition Index :: "string \<Rightarrow> index_view" where
  "Index now =
     \<lparr>category_badges = map (\<lambda>c. (c, c)) categories,
      featured_cards = map (\<lambda>s. (svc_id s, s)) (featuredServices now)\<rparr>"

section \<open>Properties\<close>

lemma featured_ids: "map svc_id (featuredServices now) = [''1'', ''2'', ''3'']"
  by (simp add: featuredServices_def)

lemma featured_categories: "map svc_category (featuredServices now) = [''Marketing'', ''Development'', ''Finance'']"
  by (simp add: featuredServices_def)

text \<open>
  The literal featured services satisfy the service invariant (unique ids,
  non-empty owner) at every render time, and the rendered keys are unique.
\<close>

lemma featured_services_wf: "services_wf (featuredServices now)"
  by (simp add: services_wf_def featured_ids) (simp add: featuredServices_def)

lemma Index_keys_distinct:
  "distinct (map fst (category_badges (Index now))) \<and> distinct (map fst (featured_cards (Index now))) \<and>
   map snd (featured_cards (Index now)) = featuredServices now"
  by (simp add: Index_def comp_def featured_ids [unfolded comp_def]) (simp add: categories_def)

end
