(* ===== verification/Spec2Isabelle.thy ===== *)
theory Spec2Isabelle
  imports InvoiceForm InvoiceList DashboardSync Catalogue DateFormat
begin

text \<open>
  \<^bold>\<open>BizConnect: a verification development of its pages.\<close>

  The repository is a React single-page front end of four pages under
  \<open>src/src/pages\<close>; persistence, authentication and the UI kit are imported
  from modules that are not part of it (\<open>useAuth\<close>, \<open>useProfile\<close>,
  \<open>useServices\<close>, \<open>useInvoices\<close>, the router, the component library).  The
  pages are modelled against those interfaces: the session is a value
  (\<open>auth_user option\<close>), every call a handler makes is an element of a list
  of effects returned in the order the code makes it, and where the order in
  which asynchronous answers arrive matters the page and its server form an
  explicit transition system.

  \<^bold>\<open>Theories and what they model.\<close>
  \<^item> \<open>Prelude\<close>: JavaScript values the pages exchange (\<open>js_int\<close>, a
    double whose finite values are integers, with \<open>NaN\<close> and the two
    infinities; string truthiness and \<open>||\<close>, \<open>undefined\<close> as \<open>None\<close>), the
    runtime error \<open>js_error\<close> and the result type \<open>'a js_result\<close>, the
    authenticated user, and list lemmas on \<open>without_id\<close> (a filter by
    identifier, the effect of a deletion on a collection).
  \<^item> \<open>JsNumber\<close> (environment): IEEE 754 binary64 rounding of an exact
    rational, \<open>to_double\<close> (round to nearest, ties to even, subnormals,
    \<open>None\<close> on overflow), the conversion \<open>double_of_int\<close> of a
    mathematical integer to a Number, and the \<open>halfExpand\<close> rounding of
    \<open>Intl.NumberFormat\<close>; integers below \<open>2^53\<close> are exact.
  \<^item> \<open>JsParseInt\<close> and \<open>HtmlInput\<close> (environment): ECMA-262 \<open>parseInt\<close>
    without radix (whose result is the digits' value rounded by
    \<open>double_of_int\<close>), and the HTML "valid floating-point number" grammar that a
    number input enforces before \<open>submit\<close> fires.  These are library
    behaviour, not repository code; they are the ground the page's handlers
    are proved against.
  \<^item> \<open>InvoiceForm\<close>: \<open>CreateInvoice.tsx\<close>.  \<open>invoice_form\<close> is
    \<open>formData\<close>; \<open>handleSubmit\<close> and \<open>handleInputChange\<close> are the handlers
    (state in, state and effects out); \<open>CreateInvoice\<close> is the render as a
    \<open>js_result\<close> because \<open>console.log(user.id)\<close> runs before the \<open>!user\<close>
    test; \<open>month_input_valid\<close>, \<open>amount_input_valid\<close> and \<open>form_valid\<close> are
    the JSX constraints, \<open>form_step\<close>/\<open>form_run\<close> the event wiring.
  \<^item> \<open>InvoiceList\<close>: \<open>Invoices.tsx\<close>.  \<open>Invoices\<close> is the render (login
    prompt, skeletons, cards, empty state), \<open>invoice_card_of\<close> a card,
    \<open>getMonthName\<close>, \<open>formatCurrency\<close> (the amount and the quotient
    \<open>amount / 100\<close> each rounded to a double, then Intl en-US USD with
    two fraction digits, written out by \<open>format_cents\<close> with \<open>group3\<close>
    and \<open>two_digits\<close>), and \<open>click_delete\<close>.
  \<^item> \<open>DateFormat\<close>: \<open>formatDate\<close> of \<open>Invoices.tsx\<close>, with the ECMA-262 Date
    Time String Format parser and \<open>toLocaleDateString('en-US')\<close> written
    out over calendar dates (\<open>civil_date\<close>, \<open>prev_day\<close>, \<open>next_day\<close>).
  \<^item> \<open>ServiceModel\<close>: the \<open>Service\<close> record of \<open>useServices\<close> and the
    spec's collection invariant \<open>services_wf\<close> (modelled from the spec: its
    module is not in the repository).
  \<^item> \<open>Dashboard\<close>: \<open>Dashboard.tsx\<close>.  \<open>dashboard_state\<close> is the two
    \<open>useState\<close> hooks; \<open>auth_redirect_effect\<close> and \<open>load_effect\<close> the two
    \<open>useEffect\<close> bodies; \<open>setUserServices\<close> the continuation of
    \<open>loadUserServices\<close>; \<open>handleDeleteService\<close> the calls made given the
    answer of \<open>window.confirm\<close>; \<open>Dashboard\<close> the render.
  \<^item> \<open>DashboardSync\<close>: the dashboard and the service store as an
    asynchronous system.  \<open>dash_step\<close> is an inductive step relation with one
    rule per event (effects, delete click, server answering a load or a
    deletion, failures, delivery of an answer, a service created by the
    dialog, the dialog flag); \<open>dash_reach\<close> its reachable states;
    \<open>dash_exec\<close> an executable step function whose graph is \<open>dash_step\<close>,
    so that scenarios are evaluated by \<open>simp\<close>.  Ghost fields \<open>version\<close>,
    \<open>ever\<close> and \<open>shown\<close> carry the invariant \<open>dash_inv\<close>.
  \<^item> \<open>Catalogue\<close>: \<open>Index.tsx\<close>, the literal featured services and
    categories and the keyed lists it renders (lemmas only: the render is
    constant data).
  \<^item> This theory: properties that span the create form, the invoice list and
    the date formatting.

  \<^bold>\<open>What is proved.\<close>
  For the create form: Scenario B of the spec (\<open>handleSubmit_integers\<close>,
  for month and amount below \<open>2^53\<close>), that at most one
  \<open>createInvoice\<close> call happens per mounted page, the last-write behaviour
  of \<open>handleInputChange\<close>, exactness of amounts of up to 15 characters,
  what the handler makes of texts the browser accepts but \<open>parseInt\<close>
  misreads (exponent and leading-dot forms), and that a month without a digit
  never reaches the handler.  For the list: \<open>getMonthName\<close> on and off
  range, the round trip of \<open>formatCurrency\<close> below \<open>100 * 2^46\<close> cents
  and its failure one cent above, the unconfirmed delete, and what
  \<open>formatDate\<close> shows for date-only strings.  For the dashboard: without a
  user no request is made and nothing is listed, the invariant of every
  reachable state (consistency with the server when the last delivered answer
  is current, distinct keys, nothing invented), the sequential delete
  (Scenario C), declining the confirmation, reload idempotence, and two
  reachable anomalies: a stale list after a confirmed deletion, and the
  empty-state card while the first load is pending.  Across components
  (below): an invoice created with the default date is listed one day early
  west of UTC, the default date is the UTC date, and an exponent-form month is
  listed under a different month than the browser accepted.

  \<^bold>\<open>Bounds and parameters.\<close>
  Numbers are doubles: a parsed integer is exact when its magnitude is below
  \<open>2^53\<close> (\<open>double_of_int_exact\<close>), which texts of at most 15 characters
  guarantee (\<open>parseInt_exact_range\<close>); above it \<open>parseInt\<close> rounds, and
  the claims about stored values carry that bound.  \<open>formatCurrency\<close>
  shows the exact cents when their magnitude is below \<open>100 * 2^46\<close>: there
  the double of the quotient is within \<open>1/256\<close> of a dollar of the
  decimal value, so rounding to cents recovers the amount; at \<open>100 * 2^46 + 1\<close> it shows one cent more.  The time
  zone is a fixed offset \<open>tz\<close> in minutes east of UTC with
  \<open>|tz| < 1440\<close>; daylight saving time is not modelled.  No fuel is used:
  every function is total, and runs of the asynchronous system are finite
  lists of events.

  \<^bold>\<open>Not modelled.\<close>
  React's scheduling beyond the order of effects and handlers (renders are
  functions of the state), the router (navigation is an effect value), the
  hooks' internals (the server's behaviour is the step relation's rules),
  \<open>CreateServiceDialog\<close> beyond its \<open>onSuccess\<close> reload, visual markup, and
  \<open>Date\<close> parsing of strings outside the ISO format (implementation-defined).
\<close>

section \<open>Properties across the pages\<close>

lemma digit_char_not_T: "e < 10 \<Longrightarrow> CHR ''T'' \<noteq> digit_char e"
  using digit_char_neq [of e "CHR ''T''"] by auto

lemma pad_digits_no_T: "CHR ''T'' \<notin> set (pad_digits k n)"
  by (auto simp: pad_digits_map digit_char_not_T dest: nat_digits_lt)

lemma date_string_no_T: "CHR ''T'' \<notin> set (date_string d)"
  using pad_digits_no_T by (auto simp: date_string_def)

lemma iso_date_iso_timestamp: "iso_date (iso_timestamp d h mi sec ms) = date_string d"
proof -
  have "\<forall>c \<in> set (date_string d). c \<noteq> CHR ''T''" using date_string_no_T by blast
  then show ?thesis
    by (simp add: iso_date_def iso_timestamp_def takeWhile_append2)
qed

lemma formatDate_same_day:
  assumes "valid_date d" "0 \<le> cd_year d" "cd_year d < 10000" "h < 24" "mi < 60" "sec < 60" "ms < 1000"
    and "0 \<le> int (h * 60 + mi) + tz" and "int (h * 60 + mi) + tz < 1440"
  shows "formatDate tz (iso_timestamp d h mi sec ms) = show_date d"
proof -
  have "(int (h * 60 + mi) + tz) div 1440 = 0" using assms(8,9) by (simp add: div_pos_pos_trivial)
  then show ?thesis by (simp add: formatDate_def parse_date_time_iso [OF assms(1-7)] local_date_def)
qed

lemma formatDate_date_west:
  assumes "valid_date d" "0 \<le> cd_year d" "cd_year d < 10000" and "- 1440 < tz" "tz < 0"
  shows "formatDate tz (date_string d) = show_date (prev_day d)"
proof -
  have "tz div 1440 = -1" using assms(4,5) div_day_small [of tz] by simp
  then show ?thesis by (simp add: formatDate_def parse_date_time_date_string [OF assms(1-3)] local_date_def)
qed



lemma sample_date_eval:
  "valid_date \<lparr>cd_year = 2024, cd_month = 3, cd_day = 1\<rparr>"
  "date_string \<lparr>cd_year = 2024, cd_month = 3, cd_day = 1\<rparr> = ''2024-03-01''"
  "show_date \<lparr>cd_year = 2024, cd_month = 3, cd_day = 1\<rparr> = ''Mar 1, 2024''"
  "show_date (prev_day \<lparr>cd_year = 2024, cd_month = 3, cd_day = 1\<rparr>) = ''Feb 29, 2024''"
  "show_date (next_day \<lparr>cd_year = 2024, cd_month = 3, cd_day = 1\<rparr>) = ''Mar 2, 2024''"
  by (simp_all add: valid_date_def days_in_month_def date_string_def pad_digits_def int_string_eval
      prev_day_def next_day_def leap_year_def show_date_def short_months_def)

lemma iso_timestamp_eval:
  "iso_timestamp \<lparr>cd_year = 2024, cd_month = 3, cd_day = 1\<rparr> 14 0 0 0 = ''2024-03-01T14:00:00.000Z''"
  "iso_timestamp \<lparr>cd_year = 2024, cd_month = 3, cd_day = 1\<rparr> 23 30 0 0 = ''2024-03-01T23:30:00.000Z''"
  by (simp_all add: iso_timestamp_def date_string_def pad_digits_def int_string_eval numeral_2_eq_2)

text \<open>
  C5: west of UTC, an invoice submitted with
  the form's default date is listed with a "Date" one day before its
  "Created" date whenever the local day has not changed since midnight UTC:
  \<open>CreateInvoice\<close> stores the UTC date of \<open>toISOString()\<close>, and
  \<open>formatDate\<close> reads that date as midnight UTC and shows it in local time.
\<close>

theorem default_date_listed_day_before:
  assumes "valid_date d" "0 \<le> cd_year d" "cd_year d < 10000" "h < 24" "mi < 60" "sec < 60" "ms < 1000"
    and "- 1440 < tz" "tz < 0" "0 \<le> int (h * 60 + mi) + tz"
    and "handleSubmit (Some u) (iso_timestamp d h mi sec ms) fd = (fd', effs)"
    and "CallCreateInvoice inp \<in> set effs"
    and "fd_invoice_date fd = fd_invoice_date (initial_form (iso_timestamp d h mi sec ms))"
    and "inv_invoice_date row = invoice_date inp" and "inv_created_at row = iso_timestamp d h mi sec ms"
  shows "card_date (invoice_card_of tz b row) = show_date (prev_day d) \<and>
         card_created (invoice_card_of tz b row) = show_date d"
proof -
  from assms(11,12) have "inp = submitted_input fd" by (auto simp: handleSubmit_def)
  with assms(13,14) have "inv_invoice_date row = date_string d"
    by (simp add: submitted_input_def initial_form_def iso_date_iso_timestamp)
  moreover have "int (h * 60 + mi) + tz < 1440" using assms(4,5,9) by simp
  ultimately show ?thesis
    using formatDate_date_west [OF assms(1-3,8,9)] formatDate_same_day [OF assms(1-7,10)] assms(15)
    by (simp add: invoice_card_of_def)
qed

theorem default_date_listed_day_before_witness:
  "card_date (invoice_card_of (-300) False
     \<lparr>inv_id = ''inv-1'', inv_month = 3, inv_sales_amount = 15000, inv_invoice_date = ''2024-03-01'',
      inv_description = None, inv_created_at = ''2024-03-01T14:00:00.000Z''\<rparr>) = ''Feb 29, 2024'' \<and>
   card_created (invoice_card_of (-300) False
     \<lparr>inv_id = ''inv-1'', inv_month = 3, inv_sales_amount = 15000, inv_invoice_date = ''2024-03-01'',
      inv_description = None, inv_created_at = ''2024-03-01T14:00:00.000Z''\<rparr>) = ''Mar 1, 2024''"
proof -
  let ?d = "\<lparr>cd_year = 2024, cd_month = 3, cd_day = 1\<rparr>"
  let ?now = "iso_timestamp ?d 14 0 0 0"
  let ?fd = "(initial_form ?now)\<lparr>fd_month := ''3'', fd_sales_amount := ''15000''\<rparr>"
  let ?u = "\<lparr>user_id = ''u1'', email = ''a@example.com''\<rparr>"
  let ?row = "\<lparr>inv_id = ''inv-1'', inv_month = 3, inv_sales_amount = 15000, inv_invoice_date = ''2024-03-01'',
      inv_description = None, inv_created_at = ''2024-03-01T14:00:00.000Z''\<rparr>"
  have h: "handleSubmit (Some ?u) ?now ?fd =
     (initial_form ?now, [PreventDefault, CallCreateInvoice (submitted_input ?fd), Navigate ''/invoices''])"
    by (simp add: handleSubmit_def)
  have r1: "inv_invoice_date ?row = invoice_date (submitted_input ?fd)"
    unfolding submitted_input_def initial_form_def iso_date_iso_timestamp sample_date_eval by simp
  have r2: "inv_created_at ?row = ?now" unfolding iso_timestamp_eval by simp
  have c: "card_date (invoice_card_of (-300) False ?row) = show_date (prev_day ?d) \<and>
           card_created (invoice_card_of (-300) False ?row) = show_date ?d"
    by (rule default_date_listed_day_before [OF sample_date_eval(1) _ _ _ _ _ _ _ _ _ h _ _ r1 r2]) simp_all
  then show ?thesis by (simp only: sample_date_eval)
qed

text \<open>
  C14: the default invoice date of the create form is the
  UTC date of the moment the form was initialised, not the local date: east
  of UTC, before the local day's offset has passed, it is the previous day.
\<close>

theorem default_date_is_utc:
  assumes "valid_date d" "0 \<le> cd_year d" "cd_year d < 10000" "h < 24" "mi < 60" "sec < 60" "ms < 1000"
    and "tz < 1440" and "1440 \<le> int (h * 60 + mi) + tz"
  shows "fd_invoice_date (initial_form (iso_timestamp d h mi sec ms)) = date_string d \<and>
         formatDate tz (iso_timestamp d h mi sec ms) = show_date (next_day d)"
proof -
  have "(int (h * 60 + mi) + tz) div 1440 = 1"
    using assms(4,5,8,9) by (simp add: div_pos_geq div_pos_pos_trivial)
  then show ?thesis
    by (simp add: formatDate_def parse_date_time_iso [OF assms(1-7)] local_date_def initial_form_def
        iso_date_iso_timestamp)
qed

theorem default_date_is_utc_witness:
  "fd_invoice_date (initial_form ''2024-03-01T23:30:00.000Z'') = ''2024-03-01'' \<and>
   formatDate 540 ''2024-03-01T23:30:00.000Z'' = ''Mar 2, 2024''"
proof -
  let ?d = "\<lparr>cd_year = 2024, cd_month = 3, cd_day = 1\<rparr>"
  have "fd_invoice_date (initial_form (iso_timestamp ?d 23 30 0 0)) = date_string ?d \<and>
        formatDate 540 (iso_timestamp ?d 23 30 0 0) = show_date (next_day ?d)"
    by (rule default_date_is_utc [OF sample_date_eval(1)]) simp_all
  then show ?thesis by (simp only: sample_date_eval iso_timestamp_eval)
qed

text \<open>
  C13: a month typed in exponent form, which the
  browser accepts with a value of \<open>m * 10^k\<close>, is stored as \<open>m\<close> and
  listed under month \<open>m\<close>: \<open>1e1\<close> (October) becomes "Invoice for January".
\<close>

theorem exponent_month_listed:
  assumes "fd_month fd = int_string m @ CHR ''e'' # nat_string k" and "1 \<le> m" and "m \<le> 12"
    and "handleSubmit (Some u) now fd = (fd', effs)" and "CallCreateInvoice inp \<in> set effs"
    and "month inp = Num (inv_month row)"
  shows "html_float (fd_month fd) = Some (of_int m * 10 ^ k) \<and>
         card_title (invoice_card_of tz b row) = ''Invoice for '' @ months ! nat (m - 1)"
proof -
  from assms(4,5) have "inp = submitted_input fd" by (auto simp: handleSubmit_def)
  from assms(2,3) have "\<bar>m\<bar> < 2 ^ 53" by simp
  with assms(1,6) \<open>inp = submitted_input fd\<close> have "inv_month row = m"
    using parseInt_stops_at_exponent [of "CHR ''e''" m "nat_string k"] double_of_int_exact
    by (simp add: submitted_input_def)
  with assms(1-3) show ?thesis
    by (simp add: invoice_card_of_def getMonthName_in_range)
qed

theorem exponent_month_listed_witness:
  "html_float ''1e1'' = Some 10 \<and>
   card_title (invoice_card_of 0 False
     \<lparr>inv_id = ''inv-1'', inv_month = 1, inv_sales_amount = 15000, inv_invoice_date = ''2024-03-01'',
      inv_description = None, inv_created_at = ''2024-03-01T14:00:00.000Z''\<rparr>) = ''Invoice for January''"
proof -
  let ?fd = "\<lparr>fd_month = ''1e1'', fd_sales_amount = ''15000'', fd_invoice_date = ''2024-03-01'', fd_description = ''''\<rparr>"
  let ?row = "\<lparr>inv_id = ''inv-1'', inv_month = 1, inv_sales_amount = 15000, inv_invoice_date = ''2024-03-01'',
      inv_description = None, inv_created_at = ''2024-03-01T14:00:00.000Z''\<rparr>"
  let ?u = "\<lparr>user_id = ''u1'', email = ''a@example.com''\<rparr>"
  have t0: "''1e1'' = int_string 1 @ CHR ''e'' # nat_string 1" by code_simp
  have t: "fd_month ?fd = int_string 1 @ CHR ''e'' # nat_string 1" by (simp only: t0 invoice_form.select_convs)
  have h: "handleSubmit (Some ?u) ''2024-03-01T14:00:00.000Z'' ?fd =
     (initial_form ''2024-03-01T14:00:00.000Z'', [PreventDefault, CallCreateInvoice (submitted_input ?fd), Navigate ''/invoices''])"
    by (simp add: handleSubmit_def)
  have p: "parseInt (fd_month ?fd) = Num 1"
    unfolding t using parseInt_stops_at_exponent [of "CHR ''e''" 1] double_of_int_exact [of 1] by simp
  have r: "month (submitted_input ?fd) = Num (inv_month ?row)"
    using p by (simp add: submitted_input_def)
  have "html_float (fd_month ?fd) = Some (of_int 1 * 10 ^ 1) \<and>
        card_title (invoice_card_of 0 False ?row) = ''Invoice for '' @ months ! nat (1 - 1)"
    by (rule exponent_month_listed [OF t _ _ h _ r]) simp_all
  then show ?thesis by (simp add: months_def)
qed

end
